theory Spec2Isabelle
  imports Main "HOL-Library.Sublist"
begin

section \<open>Upstream messages\<close>

text \<open>
  The objects the upstream endpoint delivers to \<open>onmessage\<close>. Every property the
  handlers read through \<open>?.\<close> is optional, so every field is an option; a missing
  property and \<open>undefined\<close> are both \<open>None\<close>.
\<close>

record inline_data =
  data :: "string option"
  mimeType :: "string option"

record part =
  inlineData :: "inline_data option"

record model_turn =
  parts :: "part list option"

record server_content =
  modelTurn :: "model_turn option"
  turnComplete :: "bool option"

record usage_metadata =
  totalTokenCount :: "nat option"

record message =
  serverContent :: "server_content option"
  usageMetadata :: "usage_metadata option"

text \<open>\<open>message.serverContent?.modelTurn?.parts\<close>: an array is truthy even when empty.\<close>

definition message_parts :: "message \<Rightarrow> part list option" where
  "message_parts m =
     (case serverContent m of
        None \<Rightarrow> None
      | Some sc \<Rightarrow> (case modelTurn sc of None \<Rightarrow> None | Some mt \<Rightarrow> parts mt))"

text \<open>Truthiness of \<open>message.serverContent?.turnComplete\<close>.\<close>

definition message_turnComplete :: "message \<Rightarrow> bool" where
  "message_turnComplete m =
     (case serverContent m of None \<Rightarrow> False | Some sc \<Rightarrow> turnComplete sc = Some True)"

text \<open>\<open>part.inlineData?.data\<close> when it is truthy: the empty string is falsy.\<close>

definition part_data :: "part \<Rightarrow> string option" where
  "part_data p =
     (case inlineData p of
        None \<Rightarrow> None
      | Some i \<Rightarrow> (case data i of None \<Rightarrow> None | Some d \<Rightarrow> if d = [] then None else Some d))"

text \<open>\<open>part.inlineData.mimeType || dflt\<close>, read only where \<open>inlineData\<close> is present.\<close>

definition part_mimeType :: "string \<Rightarrow> part \<Rightarrow> string" where
  "part_mimeType dflt p =
     (case inlineData p of
        None \<Rightarrow> dflt
      | Some i \<Rightarrow> (case mimeType i of None \<Rightarrow> dflt | Some t \<Rightarrow> if t = [] then dflt else t))"

text \<open>
  The kind of event a message is, by the order of the \<open>if / else if\<close> chain of
  \<open>onmessage\<close>: a message that carries \<open>modelTurn.parts\<close> is an audio chunk whatever
  else it carries.
\<close>

datatype event_kind = AudioChunk | TurnComplete | UsageInfo | Ignored

definition classify :: "message \<Rightarrow> event_kind" where
  "classify m =
     (if message_parts m \<noteq> None then AudioChunk
      else if message_turnComplete m then TurnComplete
      else if usageMetadata m \<noteq> None then UsageInfo
      else Ignored)"

section \<open>Turn state\<close>

text \<open>
  The two variables \<open>isAIResponding\<close> and \<open>isConnected\<close> that each session's callbacks
  close over, in \<open>createVoiceSession\<close> (server.js) as in \<open>runLiveVoice\<close> (index.js) and
  \<open>runLiveVoiceWithContext\<close> (final.js).
\<close>

record turn_state =
  isAIResponding :: bool
  isConnected :: bool

definition initial_turn_state :: turn_state where
  "initial_turn_state = \<lparr>isAIResponding = False, isConnected = False\<rparr>"

section \<open>The server's upstream callbacks (server.js, createVoiceSession)\<close>

type_synonym socket_id = string

datatype payload =
    NoPayload
  | MessagePayload string
  | AudioResponse string string
  | TokenUsage "nat option"

datatype realtime_input = Audio "string option" string | AudioStreamEnd

type_synonym handle = nat

datatype effect =
    Emit socket_id string payload
  | ConsoleLog string
  | ConsoleError string
  | SendRealtimeInput handle realtime_input
  | SessionClose handle
  | LiveConnect handle string

text \<open>
  The exceptions that can leave a handler: the \<open>DOMException\<close> of \<open>atob\<close> in the
  server's message handler, and the \<open>ReferenceError\<close> of reading \<open>session\<close> before
  it is initialised in the command line's \<open>cleanupAndExit\<close>. Every other throw the
  handlers can meet is caught inside them.
\<close>

datatype exn = InvalidCharacterError | ReferenceError

text \<open>
  The \<open>forEach\<close> over the parts. \<open>atob\<close> is the runtime's decoder, called for the log
  line before the emit: it is a parameter, \<open>None\<close> where it throws, and then the
  exception leaves the loop with the later parts unvisited.
\<close>

fun forward_parts ::
  "(string \<Rightarrow> string option) \<Rightarrow> socket_id \<Rightarrow> part list \<Rightarrow> effect list \<times> exn option" where
  "forward_parts atob sock [] = ([], None)"
| "forward_parts atob sock (p # ps) =
     (case part_data p of
        None \<Rightarrow> forward_parts atob sock ps
      | Some audioData \<Rightarrow>
          (case atob audioData of
             None \<Rightarrow> ([], Some InvalidCharacterError)
           | Some binary \<Rightarrow>
               (let (es, x) = forward_parts atob sock ps
                in (ConsoleLog ''Audio chunk details''
                    # Emit sock ''audio-response''
                        (AudioResponse audioData (part_mimeType ''audio/pcm'' p))
                    # es, x))))"

definition onmessage ::
  "(string \<Rightarrow> string option) \<Rightarrow> socket_id \<Rightarrow> turn_state \<Rightarrow> message
     \<Rightarrow> turn_state \<times> effect list \<times> exn option" where
  "onmessage atob sock s message =
     (case message_parts message of
        Some ps \<Rightarrow>
          (let (s1, es1) =
                 (if \<not> isAIResponding s
                  then (s\<lparr>isAIResponding := True\<rparr>, [Emit sock ''ai-speaking-start'' NoPayload])
                  else (s, []));
               (es2, x) = forward_parts atob sock ps
           in (s1, es1 @ es2, x))
      | None \<Rightarrow>
          if message_turnComplete message then
            (if isAIResponding s
             then (s\<lparr>isAIResponding := False\<rparr>, [Emit sock ''ai-speaking-end'' NoPayload], None)
             else (s, [], None))
          else
            (case usageMetadata message of
               Some u \<Rightarrow> (s, [Emit sock ''token-usage'' (TokenUsage (totalTokenCount u))], None)
             | None \<Rightarrow> (s, [], None)))"

definition onopen :: "socket_id \<Rightarrow> turn_state \<Rightarrow> turn_state \<times> effect list" where
  "onopen sock s =
     (s\<lparr>isConnected := True\<rparr>,
      [ConsoleLog ''Voice session connected for'', Emit sock ''voice-connected'' NoPayload])"

definition onerror :: "socket_id \<Rightarrow> turn_state \<Rightarrow> string \<Rightarrow> turn_state \<times> effect list" where
  "onerror sock s err_message =
     (s, [ConsoleError ''Voice session error:'', Emit sock ''voice-error'' (MessagePayload err_message)])"

definition onclose :: "socket_id \<Rightarrow> turn_state \<Rightarrow> string option \<Rightarrow> turn_state \<times> effect list" where
  "onclose sock s reason =
     (s\<lparr>isConnected := False\<rparr>,
      [ConsoleLog ''Voice session closed:'', Emit sock ''voice-disconnected'' NoPayload])"

section \<open>The command-line callbacks (index.js runLiveVoice, final.js runLiveVoiceWithContext)\<close>

datatype cli_effect =
    MicStart
  | MicPause
  | MicResume
  | MicStop
  | SpeakerWrite string
  | SpeakerEnd
  | CliSendRealtimeInput realtime_input
  | CliSessionClose
  | CliLog string
  | CliError string
  | ProcessExit nat

text \<open>
  \<open>SpeakerWrite d\<close> stands for \<open>speaker.write(Buffer.from(d, "base64"))\<close>; decoding
  with \<open>Buffer.from\<close> does not throw.
\<close>

fun cli_forward_parts :: "part list \<Rightarrow> cli_effect list" where
  "cli_forward_parts [] = []"
| "cli_forward_parts (p # ps) =
     (case part_data p of
        None \<Rightarrow> cli_forward_parts ps
      | Some d \<Rightarrow> SpeakerWrite d # cli_forward_parts ps)"

definition cli_onmessage :: "turn_state \<Rightarrow> message \<Rightarrow> turn_state \<times> cli_effect list" where
  "cli_onmessage s message =
     (case message_parts message of
        Some ps \<Rightarrow>
          (let (s1, es1) =
                 (if \<not> isAIResponding s
                  then (s\<lparr>isAIResponding := True\<rparr>,
                        [CliLog ''AI Speaking, microphone paused...'', MicPause])
                  else (s, []))
           in (s1, es1 @ cli_forward_parts ps))
      | None \<Rightarrow>
          if message_turnComplete message then
            (if isAIResponding s
             then (s\<lparr>isAIResponding := False\<rparr>,
                   [CliLog ''AI turn complete. Resuming microphone...'', MicResume,
                    CliLog ''Listening...''])
             else (s, []))
          else
            (case usageMetadata message of
               Some u \<Rightarrow> (s, [CliLog ''Token usage:''])
             | None \<Rightarrow> (s, [])))"

definition cli_onopen :: "turn_state \<Rightarrow> turn_state \<times> cli_effect list" where
  "cli_onopen s =
     (s\<lparr>isConnected := True\<rparr>,
      [CliLog ''Session connected.'', MicStart, CliLog ''Microphone started. Listening...''])"

text \<open>
  \<open>cleanupAndExit\<close>. \<open>speaker.destroyed\<close> belongs to the playback device and is a
  parameter. So is whether \<open>const session = await ai.live.connect(...)\<close> has been
  initialised: the callbacks can run while the \<open>await\<close> is pending, and then reading
  \<open>session\<close> in \<open>if (session && isConnected)\<close> throws a \<open>ReferenceError\<close>, after the
  microphone and the speaker have been stopped and before \<open>isConnected = false\<close> and
  \<open>process.exit(0)\<close>.
\<close>

definition cleanupAndExit ::
  "bool \<Rightarrow> bool \<Rightarrow> turn_state \<Rightarrow> turn_state \<times> cli_effect list \<times> exn option" where
  "cleanupAndExit speaker_destroyed session_initialised s =
     (let stopped = [CliLog ''Cleaning up and exiting...'', MicStop]
                    @ (if \<not> speaker_destroyed then [SpeakerEnd] else [])
      in if \<not> session_initialised then (s, stopped, Some ReferenceError)
         else (s\<lparr>isConnected := False\<rparr>,
               stopped @ (if isConnected s then [CliSessionClose] else []) @ [ProcessExit 0],
               None))"

definition cli_onerror ::
  "bool \<Rightarrow> bool \<Rightarrow> turn_state \<Rightarrow> string \<Rightarrow> turn_state \<times> cli_effect list \<times> exn option" where
  "cli_onerror speaker_destroyed session_initialised s err =
     (let (s', es, x) = cleanupAndExit speaker_destroyed session_initialised s
      in (s', CliError ''Session error:'' # es, x))"

definition cli_onclose :: "turn_state \<Rightarrow> string option \<Rightarrow> turn_state \<times> cli_effect list" where
  "cli_onclose s reason = (s\<lparr>isConnected := False\<rparr>, [CliLog ''Session closed:''])"

section \<open>The turn state as the specification describes it\<close>

text \<open>
  The property as the specification words it: some audio chunk has been processed
  since the last turn-complete event, or since the start when there is none.
\<close>

definition audio_since_last_turn_complete :: "message list \<Rightarrow> bool" where
  "audio_since_last_turn_complete msgs =
     list_ex (\<lambda>m. classify m = AudioChunk)
       (takeWhile (\<lambda>m. classify m \<noteq> TurnComplete) (rev msgs))"

text \<open>
  The transitions of the specification's turn state machine over a sequence of event
  kinds, from a state that is responding (\<open>r\<close>) or idle: how often it goes from idle to
  responding, and how often from responding to idle.
\<close>

fun mute_transitions :: "bool \<Rightarrow> event_kind list \<Rightarrow> nat" where
  "mute_transitions r [] = 0"
| "mute_transitions r (AudioChunk # ks) = (if r then 0 else 1) + mute_transitions True ks"
| "mute_transitions r (TurnComplete # ks) = mute_transitions False ks"
| "mute_transitions r (k # ks) = mute_transitions r ks"

fun unmute_transitions :: "bool \<Rightarrow> event_kind list \<Rightarrow> nat" where
  "unmute_transitions r [] = 0"
| "unmute_transitions r (AudioChunk # ks) = unmute_transitions True ks"
| "unmute_transitions r (TurnComplete # ks) = (if r then 1 else 0) + unmute_transitions False ks"
| "unmute_transitions r (k # ks) = unmute_transitions r ks"

section \<open>Capture frames\<close>

definition MIC_SAMPLE_RATE :: nat where
  "MIC_SAMPLE_RATE = 16000"

text \<open>A non-negative integer in a template literal: its decimal digits.\<close>

definition digit_char :: "nat \<Rightarrow> char" where
  "digit_char d = ''0123456789'' ! d"

function show_nat :: "nat \<Rightarrow> string" where
  "show_nat n = (if n < 10 then [digit_char n] else show_nat (n div 10) @ [digit_char (n mod 10)])"
  by pat_completeness auto
termination
  by (relation "measure id") auto

declare show_nat.simps [simp del]

definition mic_mimeType :: string where
  "mic_mimeType = ''audio/pcm;rate='' @ show_nat MIC_SAMPLE_RATE"

text \<open>
  What the upstream session does with one \<open>sendRealtimeInput\<close> call: it returns, or it
  throws an error with a message. It is the environment's answer to the call.
\<close>

datatype send_outcome = SendOk | SendThrows string

text \<open>
  The \<open>data\<close> handler of the microphone stream (index.js, final.js).
  \<open>toBase64 chunk\<close> stands for \<open>chunk.toString("base64")\<close>.
\<close>

definition mic_data ::
  "(string \<Rightarrow> string) \<Rightarrow> send_outcome \<Rightarrow> turn_state \<Rightarrow> string
     \<Rightarrow> turn_state \<times> cli_effect list \<times> exn option" where
  "mic_data toBase64 outcome s chunk =
     (if isConnected s \<and> \<not> isAIResponding s then
        (s,
         CliSendRealtimeInput (Audio (Some (toBase64 chunk)) mic_mimeType)
         # (case outcome of
              SendOk \<Rightarrow> []
            | SendThrows e \<Rightarrow> [CliError ''Error sending audio:'']),
         None)
      else (s, [], None))"

section \<open>Session context and system instruction\<close>

record document =
  name :: string
  content :: string

record session_data =
  agentType :: string
  documents :: "document list"

text \<open>\<open>Array.prototype.join\<close> on strings.\<close>

fun join :: "string \<Rightarrow> string list \<Rightarrow> string" where
  "join sep [] = []"
| "join sep [x] = x"
| "join sep (x # y # ys) = x @ sep @ join sep (y # ys)"

text \<open>The text one document maps to in \<open>generateSystemInstruction\<close> (server.js).\<close>

definition document_header :: "string \<Rightarrow> string" where
  "document_header n = ''\<newline>=== DOCUMENT: '' @ n @ '' ===\<newline>''"

definition document_footer :: string where
  "document_footer = ''\<newline>============================\<newline>''"

definition document_block :: "document \<Rightarrow> string" where
  "document_block doc = document_header (name doc) @ content doc @ document_footer"

definition documentContent :: "session_data \<Rightarrow> string" where
  "documentContent sessionData = join ''\<newline>'' (map document_block (documents sessionData))"

text \<open>The template of \<open>generateSystemInstruction\<close> up to the agent type.\<close>

definition instruction_title :: string where
  \<open>instruction_title =
     ''# VOICE AGENT ASSISTANT\<newline>''
     @ ''\<newline>''
     @ ''## ROLE & IDENTITY\<newline>''
     @ ''You are a professional ''\<close>

text \<open>From the agent type to the number of documents.\<close>

definition instruction_role :: string where
  \<open>instruction_role =
     '' voice assistant. You represent this organization with expertise, professionalism, and helpfulness. Your primary goal is to assist callers efficiently while maintaining a warm, professional demeanor.\<newline>''
     @ ''\<newline>''
     @ ''## KNOWLEDGE BASE\<newline>''
     @ ''You have access to comprehensive company information through ''\<close>

text \<open>From the number of documents to the document library.\<close>

definition instruction_library :: string where
  \<open>instruction_library =
     '' uploaded documents. Always reference specific information from these documents when answering questions.\<newline>''
     @ ''\<newline>''
     @ ''## DOCUMENT LIBRARY:\<newline>''\<close>

text \<open>The rest of the template, after the document library.\<close>

definition instruction_guidelines :: string where
  \<open>instruction_guidelines =
     ''\<newline>''
     @ ''\<newline>''
     @ ''## CONVERSATION GUIDELINES\<newline>''
     @ ''\<newline>''
     @ ''### Communication Style:\<newline>''
     @ ''- **Professional & Conversational**: Maintain business professionalism while being approachable and natural\<newline>''
     @ ''- **Concise & Complete**: Provide thorough answers without unnecessary verbosity  \<newline>''
     @ ''- **Reference-Based**: Always cite specific information from the documents when applicable\<newline>''
     @ ''- **Proactive**: Anticipate needs and offer relevant additional assistance\<newline>''
     @ ''\<newline>''
     @ ''### Response Framework:\<newline>''
     @ ''1. **Acknowledge** the request clearly\<newline>''
     @ ''2. **Reference specific information** from the uploaded documents \<newline>''
     @ ''3. **Provide complete, actionable answers**\<newline>''
     @ ''4. **Offer additional relevant assistance**\<newline>''
     @ ''\<newline>''
     @ ''### When Referencing Documents:\<newline>''
     @ ''- Say "According to our [document name/policy/directory]..."\<newline>''
     @ ''- Quote specific information like names, numbers, procedures\<newline>''
     @ ''- Reference exact details like phone extensions, hours, policies\<newline>''
     @ ''- Cross-reference multiple documents when relevant\<newline>''
     @ ''\<newline>''
     @ ''### For Information You Don't Have:\<newline>''
     @ ''- "I don't have that specific information in my current knowledge base"\<newline>''
     @ ''- "Let me connect you with [relevant person/department] who can help with that"\<newline>''
     @ ''- "I'd be happy to take your contact information so someone can follow up"\<newline>''
     @ ''\<newline>''
     @ ''### For Complex Requests:\<newline>''
     @ ''- Break down multi-step processes clearly\<newline>''
     @ ''- Provide step-by-step guidance when needed\<newline>''
     @ ''- Confirm understanding before proceeding\<newline>''
     @ ''- Offer to walk through processes slowly\<newline>''
     @ ''\<newline>''
     @ ''### Voice-Optimized Responses:\<newline>''
     @ ''- Use natural speech patterns and pausing\<newline>''
     @ ''- Spell out important information when needed\<newline>''
     @ ''- Confirm understanding of complex details\<newline>''
     @ ''- Ask clarifying questions when requests are unclear\<newline>''
     @ ''\<newline>''
     @ ''## QUALITY STANDARDS\<newline>''
     @ ''- **Accuracy First**: Only provide information you can verify from the documents\<newline>''
     @ ''- **Source Attribution**: Reference specific documents or sections when providing information  \<newline>''
     @ ''- **Professional Boundaries**: Know when to escalate or transfer calls\<newline>''
     @ ''- **Follow-up Excellence**: Always ask if there's anything else you can help with\<newline>''
     @ ''\<newline>''
     @ ''Remember: You are the voice of this organization. Every interaction should leave callers feeling valued, informed, and satisfied with the service they received.''\<close>

definition generateSystemInstruction :: "session_data \<Rightarrow> string" where
  "generateSystemInstruction sessionData =
     instruction_title @ agentType sessionData @ instruction_role
     @ show_nat (length (documents sessionData)) @ instruction_library
     @ documentContent sessionData @ instruction_guidelines"

text \<open>The system instruction of \<open>runLiveVoiceWithContext\<close> (final.js).\<close>

definition context_block :: "document \<Rightarrow> string" where
  "context_block doc = ''\<newline>'' @ name doc @ '':\<newline>'' @ content doc @ ''\<newline>''"

definition context_documents :: "session_data \<Rightarrow> string" where
  "context_documents agentContext = join ''\<newline>'' (map context_block (documents agentContext))"

definition systemInstruction :: "session_data \<Rightarrow> string" where
  "systemInstruction agentContext =
     ''You are a '' @ agentType agentContext
     @ '' voice assistant. Your responses should be conversational, yet concise.\<newline>''
     @ ''\<newline>''
     @ ''You have access to the following documents and information:\<newline>''
     @ context_documents agentContext
     @ ''\<newline>''
     @ ''\<newline>''
     @ ''Use this information to provide accurate, helpful responses. Always refer to the specific information in your documents when relevant.''"

text \<open>
  Documents whose text cannot be mistaken for the frame around a document in the
  library of server.js: the name does not hold the end of the header line, and the
  content does not hold the footer.
\<close>

definition library_safe :: "document \<Rightarrow> bool" where
  "library_safe doc =
     (\<not> sublist '' ===\<newline>'' (name doc) \<and> \<not> sublist document_footer (content doc))"

text \<open>
  The documents of final.js are read with \<open>rl.question\<close>, one line for the content and
  one for the name: neither holds a line break.
\<close>

definition single_line :: "string \<Rightarrow> bool" where
  "single_line s = (CHR ''\<newline>'' \<notin> set s)"

definition readline_document :: "document \<Rightarrow> bool" where
  "readline_document doc = (single_line (name doc) \<and> single_line (content doc))"

text \<open>
  A wider condition under which the context of final.js is read back: the name has no
  line break, and the content has no empty line and does not end with a line break.
\<close>

definition context_safe :: "document \<Rightarrow> bool" where
  "context_safe doc =
     (CHR ''\<newline>'' \<notin> set (name doc) \<and> \<not> sublist ''\<newline>\<newline>'' (content doc @ ''\<newline>''))"

section \<open>The server's sessions and socket handlers (server.js)\<close>

text \<open>
  A voice session is the closure \<open>createVoiceSession\<close> builds: the socket it was
  given and its two variables. The object the function returns reads the variables
  through getters, so the registry entry and the callbacks share one closure; the
  closures live in a store addressed by the identity of the upstream session.
\<close>

record voice_session =
  socket :: socket_id
  turn :: turn_state

record server_state =
  agentSessions :: "string \<rightharpoonup> session_data"
  voiceSessions :: "handle \<rightharpoonup> voice_session"
  activeVoiceSessions :: "socket_id \<rightharpoonup> handle"
  next_handle :: handle

text \<open>
  \<open>createVoiceSession\<close> up to its \<open>await\<close>: the variables are initialised, the
  instruction is built and \<open>ai.live.connect\<close> is called with it.
\<close>

definition createVoiceSession ::
  "server_state \<Rightarrow> session_data \<Rightarrow> socket_id \<Rightarrow> server_state \<times> effect list" where
  "createVoiceSession st sessionData sock =
     (let h = next_handle st
      in (st\<lparr>voiceSessions := (voiceSessions st)(h \<mapsto> \<lparr>socket = sock, turn = initial_turn_state\<rparr>),
             next_handle := Suc h\<rparr>,
          [ConsoleLog ''System Instruction Generated:'',
           LiveConnect h (generateSystemInstruction sessionData)]))"

text \<open>
  The \<open>start-voice-session\<close> handler up to the \<open>await\<close>, for a request that carries
  \<open>sessionId\<close>.
\<close>

definition start_voice_session ::
  "server_state \<Rightarrow> socket_id \<Rightarrow> string \<Rightarrow> server_state \<times> effect list" where
  "start_voice_session st sock sessionId =
     (case agentSessions st sessionId of
        None \<Rightarrow> (st, [Emit sock ''error'' (MessagePayload ''Session not found'')])
      | Some session \<Rightarrow> createVoiceSession st session sock)"

text \<open>The handler after the \<open>await\<close>, when \<open>connect\<close> resolved with session \<open>h\<close>.\<close>

definition connect_resolved :: "server_state \<Rightarrow> handle \<Rightarrow> server_state \<times> effect list" where
  "connect_resolved st h =
     (case voiceSessions st h of
        None \<Rightarrow> (st, [])
      | Some vs \<Rightarrow>
          (st\<lparr>activeVoiceSessions := (activeVoiceSessions st)(socket vs \<mapsto> h)\<rparr>,
           [Emit (socket vs) ''voice-session-started'' NoPayload]))"

text \<open>The \<open>catch\<close> of the handler, when \<open>connect\<close> rejected.\<close>

definition connect_rejected ::
  "server_state \<Rightarrow> handle \<Rightarrow> string \<Rightarrow> server_state \<times> effect list" where
  "connect_rejected st h err_message =
     (case voiceSessions st h of
        None \<Rightarrow> (st, [])
      | Some vs \<Rightarrow>
          (st, [ConsoleError ''Error starting voice session:'',
                Emit (socket vs) ''error'' (MessagePayload err_message)]))"

text \<open>An upstream event is delivered to the callbacks of the session it belongs to.\<close>

datatype upstream_event = Open | Message message | Error string | Close "string option"

definition callback ::
  "(string \<Rightarrow> string option) \<Rightarrow> socket_id \<Rightarrow> turn_state \<Rightarrow> upstream_event
     \<Rightarrow> turn_state \<times> effect list \<times> exn option" where
  "callback atob sock s ev =
     (case ev of
        Open \<Rightarrow> (let (s', es) = onopen sock s in (s', es, None))
      | Message m \<Rightarrow> onmessage atob sock s m
      | Error e \<Rightarrow> (let (s', es) = onerror sock s e in (s', es, None))
      | Close r \<Rightarrow> (let (s', es) = onclose sock s r in (s', es, None)))"

definition upstream ::
  "(string \<Rightarrow> string option) \<Rightarrow> server_state \<Rightarrow> handle \<Rightarrow> upstream_event
     \<Rightarrow> server_state \<times> effect list \<times> exn option" where
  "upstream atob st h ev =
     (case voiceSessions st h of
        None \<Rightarrow> (st, [], None)
      | Some vs \<Rightarrow>
          (let (t, es, x) = callback atob (socket vs) (turn vs) ev
           in (st\<lparr>voiceSessions := (voiceSessions st)(h \<mapsto> vs\<lparr>turn := t\<rparr>)\<rparr>, es, x)))"

text \<open>
  The \<open>audio-data\<close> handler of the socket \<open>sock\<close>. The registry holds a reference to
  the session object, so the store has it; the branch for a missing object is the
  one of a missing entry.
\<close>

definition audio_data ::
  "send_outcome \<Rightarrow> server_state \<Rightarrow> socket_id \<Rightarrow> string option
     \<Rightarrow> server_state \<times> effect list \<times> exn option" where
  "audio_data outcome st sock audioData =
     (let received = ConsoleLog ''Received audio data:'';
          not_ready = (st, [received, ConsoleLog ''Voice session not ready:''], None)
      in case activeVoiceSessions st sock of
           None \<Rightarrow> not_ready
         | Some h \<Rightarrow>
             (case voiceSessions st h of
                None \<Rightarrow> not_ready
              | Some voiceSession \<Rightarrow>
                  if isConnected (turn voiceSession) \<and> \<not> isAIResponding (turn voiceSession) then
                    (st,
                     [received, ConsoleLog ''Sending audio to Gemini...'',
                      SendRealtimeInput h (Audio audioData mic_mimeType)]
                     @ (case outcome of
                          SendOk \<Rightarrow> []
                        | SendThrows e \<Rightarrow>
                            [ConsoleError ''Error sending audio:'',
                             Emit sock ''error'' (MessagePayload ''Error processing audio'')]),
                     None)
                  else not_ready))"

text \<open>
  What the upstream session does with one \<open>close\<close> call.
\<close>

datatype close_outcome = CloseOk | CloseThrows string

text \<open>
  The \<open>stop-voice-session\<close> and \<open>disconnect\<close> handlers: the only places where the
  server closes an upstream session. A throw of the end-of-stream send skips the
  close; both throws are caught and logged; the registry entry is deleted in any case.
\<close>

definition stop_voice_session ::
  "send_outcome \<Rightarrow> close_outcome \<Rightarrow> server_state \<Rightarrow> socket_id \<Rightarrow> server_state \<times> effect list" where
  "stop_voice_session end_outcome closing st sock =
     (case activeVoiceSessions st sock of
        None \<Rightarrow> (st, [])
      | Some h \<Rightarrow>
          (st\<lparr>activeVoiceSessions := (activeVoiceSessions st)(sock := None)\<rparr>,
           (case voiceSessions st h of
              None \<Rightarrow> []
            | Some voiceSession \<Rightarrow>
                if isConnected (turn voiceSession) then
                  SendRealtimeInput h AudioStreamEnd
                  # (case end_outcome of
                       SendThrows e \<Rightarrow> [ConsoleError ''Error stopping voice session:'']
                     | SendOk \<Rightarrow>
                         SessionClose h
                         # (case closing of
                              CloseOk \<Rightarrow> []
                            | CloseThrows e \<Rightarrow> [ConsoleError ''Error stopping voice session:'']))
                else [])))"

definition disconnect ::
  "close_outcome \<Rightarrow> server_state \<Rightarrow> socket_id \<Rightarrow> server_state \<times> effect list" where
  "disconnect closing st sock =
     (case activeVoiceSessions st sock of
        None \<Rightarrow> (st, [ConsoleLog ''Client disconnected:''])
      | Some h \<Rightarrow>
          (st\<lparr>activeVoiceSessions := (activeVoiceSessions st)(sock := None)\<rparr>,
           ConsoleLog ''Client disconnected:''
           # (case voiceSessions st h of
                None \<Rightarrow> []
              | Some voiceSession \<Rightarrow>
                  if isConnected (turn voiceSession) then
                    SessionClose h
                    # (case closing of
                         CloseOk \<Rightarrow> []
                       | CloseThrows e \<Rightarrow> [ConsoleError ''Error cleaning up voice session:''])
                  else [])))"

section \<open>Running the callbacks over a sequence of messages\<close>

text \<open>
  The handler is called once for each message, in the order of arrival. An exception
  of one call goes to the caller of the callback; the variables stay as that call
  left them.
\<close>

fun run_onmessage ::
  "(string \<Rightarrow> string option) \<Rightarrow> socket_id \<Rightarrow> turn_state \<Rightarrow> message list
     \<Rightarrow> turn_state \<times> effect list" where
  "run_onmessage atob sock s [] = (s, [])"
| "run_onmessage atob sock s (m # ms) =
     (let (s1, es1, x) = onmessage atob sock s m;
          (s2, es2) = run_onmessage atob sock s1 ms
      in (s2, es1 @ es2))"

fun cli_run_onmessage :: "turn_state \<Rightarrow> message list \<Rightarrow> turn_state \<times> cli_effect list" where
  "cli_run_onmessage s [] = (s, [])"
| "cli_run_onmessage s (m # ms) =
     (let (s1, es1) = cli_onmessage s m;
          (s2, es2) = cli_run_onmessage s1 ms
      in (s2, es1 @ es2))"

text \<open>
  The server's callbacks called once for each upstream event of a session, in the
  order of arrival, and the messages among the events.
\<close>

fun run_callbacks ::
  "(string \<Rightarrow> string option) \<Rightarrow> socket_id \<Rightarrow> turn_state \<Rightarrow> upstream_event list
     \<Rightarrow> turn_state \<times> effect list" where
  "run_callbacks atob sock s [] = (s, [])"
| "run_callbacks atob sock s (ev # evs) =
     (let (s1, es1, x) = callback atob sock s ev;
          (s2, es2) = run_callbacks atob sock s1 evs
      in (s2, es1 @ es2))"

definition event_messages :: "upstream_event list \<Rightarrow> message list" where
  "event_messages evs = List.map_filter (\<lambda>ev. case ev of Message m \<Rightarrow> Some m | _ \<Rightarrow> None) evs"

text \<open>
  The property with the reference points the specification names: the last
  turn-complete event, the connect, or an error taken as a forced reset.
\<close>

definition is_reference_point :: "upstream_event \<Rightarrow> bool" where
  "is_reference_point ev =
     (case ev of
        Open \<Rightarrow> True
      | Message m \<Rightarrow> classify m = TurnComplete
      | Error e \<Rightarrow> True
      | Close r \<Rightarrow> False)"

definition audio_since_last_reference_point :: "upstream_event list \<Rightarrow> bool" where
  "audio_since_last_reference_point evs =
     list_ex (\<lambda>ev. case ev of Message m \<Rightarrow> classify m = AudioChunk | _ \<Rightarrow> False)
       (takeWhile (\<lambda>ev. \<not> is_reference_point ev) (rev evs))"

section \<open>Reading effect traces\<close>

definition emits_event :: "string \<Rightarrow> effect \<Rightarrow> bool" where
  "emits_event ev e = (case e of Emit sock n p \<Rightarrow> n = ev | _ \<Rightarrow> False)"

definition count_event :: "string \<Rightarrow> effect list \<Rightarrow> nat" where
  "count_event ev es = length (filter (emits_event ev) es)"







section \<open>Example inputs\<close>





definition audio_message :: "string \<Rightarrow> string \<Rightarrow> message" where
  "audio_message d t =
     \<lparr>serverContent =
        Some \<lparr>modelTurn = Some \<lparr>parts = Some [\<lparr>inlineData = Some \<lparr>data = Some d, mimeType = Some t\<rparr>\<rparr>]\<rparr>,
              turnComplete = None\<rparr>,
      usageMetadata = None\<rparr>"

definition turn_complete_message :: message where
  "turn_complete_message =
     \<lparr>serverContent = Some \<lparr>modelTurn = None, turnComplete = Some True\<rparr>, usageMetadata = None\<rparr>"

text \<open>
  A decoder for the examples. It throws outside the base64 alphabet; the handler reads
  the decoded bytes for a log line only, so the input stands for them here.
\<close>

definition base64_alphabet :: string where
  "base64_alphabet = ''ABCDEFGHIJKLMNOPQRSTUVWXYZabcdefghijklmnopqrstuvwxyz0123456789+/=''"

definition sample_atob :: "string \<Rightarrow> string option" where
  "sample_atob d = (if list_all (\<lambda>c. c \<in> set base64_alphabet) d then Some d else None)"

definition responding_state :: turn_state where
  "responding_state = \<lparr>isAIResponding = True, isConnected = True\<rparr>"

definition listening_state :: turn_state where
  "listening_state = \<lparr>isAIResponding = False, isConnected = True\<rparr>"

definition sample_session_data :: session_data where
  "sample_session_data =
     \<lparr>agentType = ''clinic reception'',
      documents = [\<lparr>name = ''Hours'', content = ''Open 9 to 5''\<rparr>,
                   \<lparr>name = ''Prices'', content = ''Visit: 40''\<rparr>]\<rparr>"

text \<open>
  A server on which the socket \<open>socket-1\<close> has started one voice session, whose
  variables are \<open>t\<close>.
\<close>

definition sample_server :: "turn_state \<Rightarrow> server_state" where
  "sample_server t =
     \<lparr>agentSessions = [''agent-1'' \<mapsto> sample_session_data],
      voiceSessions = [0 \<mapsto> \<lparr>socket = ''socket-1'', turn = t\<rparr>],
      activeVoiceSessions = [''socket-1'' \<mapsto> 0],
      next_handle = 1\<rparr>"

text \<open>
  Two contexts for server.js with the same agent type and the same document names,
  where a content quotes the footer and the next header of the library; and two where
  a name quotes the end of the header line.
\<close>

definition library_a :: session_data where
  "library_a =
     \<lparr>agentType = ''clinic reception'',
      documents =
        [\<lparr>name = ''Hours'', content = ''Mon-Fri 9-5''\<rparr>,
         \<lparr>name = ''Prices'',
          content = ''Visit: 40\<newline>============================\<newline>\<newline>\<newline>=== DOCUMENT: Prices ===\<newline>Surgery: 900''\<rparr>]\<rparr>"

definition library_b :: session_data where
  "library_b =
     \<lparr>agentType = ''clinic reception'',
      documents =
        [\<lparr>name = ''Hours'',
          content = ''Mon-Fri 9-5\<newline>============================\<newline>\<newline>\<newline>=== DOCUMENT: Prices ===\<newline>Visit: 40''\<rparr>,
         \<lparr>name = ''Prices'', content = ''Surgery: 900''\<rparr>]\<rparr>"

definition heading_a :: session_data where
  "heading_a =
     \<lparr>agentType = ''clinic reception'',
      documents = [\<lparr>name = ''Prices ===\<newline>Valid from May'', content = ''Visit: 40''\<rparr>]\<rparr>"

definition heading_b :: session_data where
  "heading_b =
     \<lparr>agentType = ''clinic reception'',
      documents = [\<lparr>name = ''Prices'', content = ''Valid from May ===\<newline>Visit: 40''\<rparr>]\<rparr>"

definition swapped_session_data :: session_data where
  "swapped_session_data =
     \<lparr>agentType = ''clinic reception'',
      documents = [\<lparr>name = ''Hours'', content = ''Visit: 40''\<rparr>,
                   \<lparr>name = ''Prices'', content = ''Open 9 to 5''\<rparr>]\<rparr>"

section \<open>The turn state follows the audio chunks and turn-complete events\<close>

lemma classify_audio_message: "classify (audio_message d t) = AudioChunk"
  by (simp add: classify_def audio_message_def message_parts_def)

lemma classify_turn_complete_message: "classify turn_complete_message = TurnComplete"
  by (simp add: classify_def turn_complete_message_def message_parts_def message_turnComplete_def)

lemma onmessage_turn:
  "isAIResponding (fst (onmessage atob sock s m)) =
     (case classify m of AudioChunk \<Rightarrow> True | TurnComplete \<Rightarrow> False | _ \<Rightarrow> isAIResponding s)"
  by (auto simp: onmessage_def classify_def split: option.splits prod.splits)

lemma cli_onmessage_turn:
  "isAIResponding (fst (cli_onmessage s m)) =
     (case classify m of AudioChunk \<Rightarrow> True | TurnComplete \<Rightarrow> False | _ \<Rightarrow> isAIResponding s)"
  by (auto simp: cli_onmessage_def classify_def split: option.splits prod.splits)

lemma run_onmessage_foldl:
  "fst (run_onmessage atob sock s ms) = foldl (\<lambda>s m. fst (onmessage atob sock s m)) s ms"
  by (induction ms arbitrary: s) (simp_all add: case_prod_beta)

lemma cli_run_onmessage_foldl:
  "fst (cli_run_onmessage s ms) = foldl (\<lambda>s m. fst (cli_onmessage s m)) s ms"
  by (induction ms arbitrary: s) (simp_all add: case_prod_beta)

text \<open>
  Any state-passing handler whose step follows the kind of the message ends responding
  exactly when an audio chunk came after the last turn-complete event, or none came
  and it started responding.
\<close>

lemma turn_fold:
  assumes step: "\<And>s m. isAIResponding (f s m) =
     (case classify m of AudioChunk \<Rightarrow> True | TurnComplete \<Rightarrow> False | _ \<Rightarrow> isAIResponding s)"
  shows "isAIResponding (foldl f s msgs) =
     (audio_since_last_turn_complete msgs
      \<or> (isAIResponding s \<and> list_all (\<lambda>m. classify m \<noteq> TurnComplete) msgs))"
proof (induction msgs rule: rev_induct)
  case Nil
  then show ?case by (simp add: audio_since_last_turn_complete_def)
next
  case (snoc m msgs)
  then show ?case
    by (cases "classify m") (auto simp: step audio_since_last_turn_complete_def)
qed

lemma callback_turn:
  "isAIResponding (fst (callback atob sock s ev)) =
     (case ev of
        Message m \<Rightarrow>
          (case classify m of AudioChunk \<Rightarrow> True | TurnComplete \<Rightarrow> False | _ \<Rightarrow> isAIResponding s)
      | _ \<Rightarrow> isAIResponding s)"
  by (cases ev) (simp_all add: callback_def onopen_def onerror_def onclose_def onmessage_turn)

lemma run_callbacks_foldl:
  "fst (run_callbacks atob sock s evs) = foldl (\<lambda>s ev. fst (callback atob sock s ev)) s evs"
  by (induction evs arbitrary: s) (simp_all add: case_prod_beta)

lemma event_messages_snoc:
  "event_messages (evs @ [ev]) = event_messages evs @ (case ev of Message m \<Rightarrow> [m] | _ \<Rightarrow> [])"
  by (cases ev) (simp_all add: event_messages_def List.map_filter_def)

text \<open>
  The server's callbacks over any sequence of upstream events: only the messages
  among the events move the turn state.
\<close>

lemma callbacks_fold:
  "isAIResponding (foldl (\<lambda>s ev. fst (callback atob sock s ev)) s evs) =
     (audio_since_last_turn_complete (event_messages evs)
      \<or> (isAIResponding s \<and> list_all (\<lambda>m. classify m \<noteq> TurnComplete) (event_messages evs)))"
proof (induction evs rule: rev_induct)
  case Nil
  then show ?case by (simp add: audio_since_last_turn_complete_def event_messages_def List.map_filter_def)
next
  case (snoc ev evs)
  show ?case
  proof (cases ev)
    case (Message m)
    with snoc show ?thesis
      by (cases "classify m")
        (auto simp: callback_turn event_messages_snoc audio_since_last_turn_complete_def)
  qed (use snoc in \<open>simp_all add: callback_turn event_messages_snoc\<close>)
qed

text \<open>
  C1, as the specification states it, fails: it counts an error as a forced reset.
  On the server the events open, audio chunk, error leave the session responding,
  though no audio chunk was processed after the error.
\<close>

theorem responding_after_error_without_audio:
  "isAIResponding (fst (run_callbacks sample_atob ''socket-1'' initial_turn_state
      [Open, Message (audio_message ''QUJD'' ''audio/pcm''), Error ''upstream failure'']))
   \<and> \<not> audio_since_last_reference_point
      [Open, Message (audio_message ''QUJD'' ''audio/pcm''), Error ''upstream failure'']"
proof -
  have "isAIResponding (foldl (\<lambda>s ev. fst (callback sample_atob ''socket-1'' s ev)) initial_turn_state
      [Open, Message (audio_message ''QUJD'' ''audio/pcm''), Error ''upstream failure''])"
    by (simp add: callback_turn classify_audio_message)
  then have "isAIResponding (fst (run_callbacks sample_atob ''socket-1'' initial_turn_state
      [Open, Message (audio_message ''QUJD'' ''audio/pcm''), Error ''upstream failure'']))"
    by (simp only: run_callbacks_foldl)
  moreover have "\<not> audio_since_last_reference_point
      [Open, Message (audio_message ''QUJD'' ''audio/pcm''), Error ''upstream failure'']"
    by (simp add: audio_since_last_reference_point_def is_reference_point_def)
  ultimately show ?thesis by blast
qed

text \<open>
  C1, amended. From a state that is not responding (a session just created, or one
  whose turn has completed), after the server's callbacks have processed any sequence
  of upstream events, and after the message handler of the server or of the command
  line has processed any sequence of messages, the state is responding if and only if
  an audio chunk (a message with \<open>serverContent.modelTurn.parts\<close>) was processed
  after the last turn-complete event, or after the start when there was none. An
  open, error or close event is no reference point: on the server and on the command
  line it leaves the turn state as it was. A message is one kind of event, by the
  handler's \<open>if / else if\<close> order. From a state that is responding, the state
  after is responding also when no turn-complete event was processed.
\<close>

theorem turn_state_iff_audio_since_turn_complete:
  assumes "\<not> isAIResponding s"
  shows "isAIResponding (fst (run_callbacks atob sock s evs))
           = audio_since_last_turn_complete (event_messages evs)
       \<and> isAIResponding (fst (run_onmessage atob sock s msgs)) = audio_since_last_turn_complete msgs
       \<and> isAIResponding (fst (cli_run_onmessage s msgs)) = audio_since_last_turn_complete msgs
       \<and> isAIResponding (fst (run_callbacks atob sock s' evs))
           = (audio_since_last_turn_complete (event_messages evs)
              \<or> isAIResponding s' \<and> list_all (\<lambda>m. classify m \<noteq> TurnComplete) (event_messages evs))
       \<and> isAIResponding (fst (cli_run_onmessage s' msgs))
           = (audio_since_last_turn_complete msgs
              \<or> isAIResponding s' \<and> list_all (\<lambda>m. classify m \<noteq> TurnComplete) msgs)
       \<and> isAIResponding (fst (onopen sock s')) = isAIResponding s'
       \<and> isAIResponding (fst (onerror sock s' e)) = isAIResponding s'
       \<and> isAIResponding (fst (onclose sock s' r)) = isAIResponding s'
       \<and> isAIResponding (fst (cli_onopen s')) = isAIResponding s'
       \<and> isAIResponding (fst (cli_onerror destroyed initialised s' e)) = isAIResponding s'
       \<and> isAIResponding (fst (cli_onclose s' r)) = isAIResponding s'"
proof -
  have "isAIResponding (fst (run_callbacks atob sock s evs))
           = audio_since_last_turn_complete (event_messages evs)"
    using assms by (simp add: run_callbacks_foldl callbacks_fold)
  moreover have "isAIResponding (fst (run_onmessage atob sock s msgs)) = audio_since_last_turn_complete msgs"
    using assms turn_fold[of "\<lambda>s m. fst (onmessage atob sock s m)" s msgs, OF onmessage_turn]
    by (simp add: run_onmessage_foldl)
  moreover have "isAIResponding (fst (cli_run_onmessage s msgs)) = audio_since_last_turn_complete msgs"
    using assms turn_fold[of "\<lambda>s m. fst (cli_onmessage s m)" s msgs, OF cli_onmessage_turn]
    by (simp add: cli_run_onmessage_foldl)
  moreover have "isAIResponding (fst (run_callbacks atob sock s' evs))
           = (audio_since_last_turn_complete (event_messages evs)
              \<or> isAIResponding s' \<and> list_all (\<lambda>m. classify m \<noteq> TurnComplete) (event_messages evs))"
    by (simp only: run_callbacks_foldl callbacks_fold)
  moreover have "isAIResponding (fst (cli_run_onmessage s' msgs))
           = (audio_since_last_turn_complete msgs
              \<or> isAIResponding s' \<and> list_all (\<lambda>m. classify m \<noteq> TurnComplete) msgs)"
    using turn_fold[of "\<lambda>s m. fst (cli_onmessage s m)" s' msgs, OF cli_onmessage_turn]
    by (simp only: cli_run_onmessage_foldl)
  moreover have "isAIResponding (fst (cli_onerror destroyed initialised s' e)) = isAIResponding s'"
    by (simp add: cli_onerror_def cleanupAndExit_def Let_def)
  ultimately show ?thesis
    by (simp add: onopen_def onerror_def onclose_def cli_onopen_def cli_onclose_def)
qed

lemma audio_since_example:
  "audio_since_last_turn_complete
     [audio_message ''QUJD'' ''audio/pcm'', turn_complete_message, audio_message ''REVG'' ''audio/pcm'']"
  by (simp add: audio_since_last_turn_complete_def classify_audio_message classify_turn_complete_message)

lemma no_audio_since_example:
  "\<not> audio_since_last_turn_complete [audio_message ''QUJD'' ''audio/pcm'', turn_complete_message]"
  by (simp add: audio_since_last_turn_complete_def classify_audio_message classify_turn_complete_message)

lemma audio_since_error_example:
  "audio_since_last_turn_complete
     (event_messages [Open, Message (audio_message ''QUJD'' ''audio/pcm''), Error ''upstream failure''])"
  by (simp add: audio_since_last_turn_complete_def event_messages_def List.map_filter_def
      classify_audio_message)

lemma no_audio_since_close_example:
  "\<not> audio_since_last_turn_complete
     (event_messages [Open, Message (audio_message ''QUJD'' ''audio/pcm''),
        Message turn_complete_message, Close None])"
  by (simp add: audio_since_last_turn_complete_def event_messages_def List.map_filter_def
      classify_audio_message classify_turn_complete_message)

theorem turn_state_iff_audio_since_turn_complete_witness:
  "\<not> isAIResponding initial_turn_state
   \<and> isAIResponding (fst (run_callbacks sample_atob ''socket-1'' initial_turn_state
        [Open, Message (audio_message ''QUJD'' ''audio/pcm''), Error ''upstream failure'']))
   \<and> \<not> isAIResponding (fst (run_callbacks sample_atob ''socket-1'' initial_turn_state
        [Open, Message (audio_message ''QUJD'' ''audio/pcm''), Message turn_complete_message, Close None]))
   \<and> isAIResponding (fst (run_onmessage sample_atob ''socket-1'' initial_turn_state
        [audio_message ''QUJD'' ''audio/pcm'', turn_complete_message, audio_message ''REVG'' ''audio/pcm'']))
   \<and> isAIResponding (fst (cli_run_onmessage initial_turn_state
        [audio_message ''QUJD'' ''audio/pcm'', turn_complete_message, audio_message ''REVG'' ''audio/pcm'']))
   \<and> \<not> isAIResponding (fst (run_onmessage sample_atob ''socket-1'' initial_turn_state
        [audio_message ''QUJD'' ''audio/pcm'', turn_complete_message]))
   \<and> isAIResponding (fst (cli_onerror False False responding_state ''upstream failure''))"
proof -
  have h: "\<not> isAIResponding initial_turn_state"
    by (simp add: initial_turn_state_def)
  have r: "isAIResponding responding_state"
    by (simp add: responding_state_def)
  show ?thesis
    using h r no_audio_since_example audio_since_example
      audio_since_error_example no_audio_since_close_example
      turn_state_iff_audio_since_turn_complete[OF h, of sample_atob "''socket-1''"
        "[Open, Message (audio_message ''QUJD'' ''audio/pcm''), Error ''upstream failure'']"
        "[audio_message ''QUJD'' ''audio/pcm'', turn_complete_message, audio_message ''REVG'' ''audio/pcm'']"
        responding_state "''upstream failure''" None False False]
      turn_state_iff_audio_since_turn_complete[OF h, of sample_atob "''socket-1''"
        "[Open, Message (audio_message ''QUJD'' ''audio/pcm''), Message turn_complete_message, Close None]"
        "[audio_message ''QUJD'' ''audio/pcm'', turn_complete_message]"
        responding_state "''upstream failure''" None False False]
    by blast
qed

section \<open>Mute and unmute once per transition\<close>

lemma count_event_forward_parts:
  "ev \<noteq> ''audio-response'' \<Longrightarrow> count_event ev (fst (forward_parts atob sock ps)) = 0"
  by (induction ps) (auto simp: count_event_def emits_event_def split: option.splits prod.splits)

lemma turn_state_False_idem: "\<not> isAIResponding s \<Longrightarrow> s\<lparr>isAIResponding := False\<rparr> = s"
  by (cases s) simp

lemma count_MicPause_forward: "count_list (cli_forward_parts ps) MicPause = 0"
  by (induction ps) (auto split: option.splits)

lemma count_event_append: "count_event ev (xs @ ys) = count_event ev xs + count_event ev ys"
  by (simp add: count_event_def)

lemma count_MicResume_forward: "count_list (cli_forward_parts ps) MicResume = 0"
  by (induction ps) (auto split: option.splits)

lemma count_list_append: "count_list (xs @ ys) a = count_list xs a + count_list ys a"
  by (induction xs) simp_all

lemma turn_state_True_idem: "isAIResponding s \<Longrightarrow> s\<lparr>isAIResponding := True\<rparr> = s"
  by (cases s) simp

text \<open>What one call of the message handler emits of the mute and the unmute effect.\<close>

lemma onmessage_mute_count:
  "count_event ''ai-speaking-start'' (fst (snd (onmessage atob sock s m)))
     = (if classify m = AudioChunk \<and> \<not> isAIResponding s then 1 else 0)"
proof (cases "message_parts m")
  case None
  then show ?thesis
    by (simp add: onmessage_def classify_def count_event_def emits_event_def split: option.splits)
next
  case (Some ps)
  have "count_event ''ai-speaking-start'' (fst (forward_parts atob sock ps)) = 0"
    by (rule count_event_forward_parts) simp
  with Some show ?thesis
    by (simp add: onmessage_def classify_def count_event_append case_prod_beta)
      (simp add: count_event_def emits_event_def)
qed

lemma onmessage_unmute_count:
  "count_event ''ai-speaking-end'' (fst (snd (onmessage atob sock s m)))
     = (if classify m = TurnComplete \<and> isAIResponding s then 1 else 0)"
proof (cases "message_parts m")
  case None
  then show ?thesis
    by (simp add: onmessage_def classify_def count_event_def emits_event_def split: option.splits)
next
  case (Some ps)
  have "count_event ''ai-speaking-end'' (fst (forward_parts atob sock ps)) = 0"
    by (rule count_event_forward_parts) simp
  with Some show ?thesis
    by (simp add: onmessage_def classify_def count_event_append case_prod_beta)
      (simp add: count_event_def emits_event_def)
qed

lemma cli_onmessage_mute_count:
  "count_list (snd (cli_onmessage s m)) MicPause
     = (if classify m = AudioChunk \<and> \<not> isAIResponding s then 1 else 0)"
  by (simp add: cli_onmessage_def classify_def count_list_append count_MicPause_forward
      split: option.splits)

lemma cli_onmessage_unmute_count:
  "count_list (snd (cli_onmessage s m)) MicResume
     = (if classify m = TurnComplete \<and> isAIResponding s then 1 else 0)"
  by (simp add: cli_onmessage_def classify_def count_list_append count_MicResume_forward
      split: option.splits)

text \<open>
  Over any sequence of messages the handlers emit the mute effect once for each
  transition from idle to responding, and the unmute effect once for each transition
  from responding to idle.
\<close>

lemma run_mute_count:
  "count_event ''ai-speaking-start'' (snd (run_onmessage atob sock s msgs))
     = mute_transitions (isAIResponding s) (map classify msgs)"
proof (induction msgs arbitrary: s)
  case Nil
  then show ?case by (simp add: count_event_def)
next
  case (Cons m msgs)
  then show ?case
    using onmessage_turn[of atob sock s m]
    by (cases "classify m") (simp_all add: case_prod_beta count_event_append onmessage_mute_count)
qed

lemma run_unmute_count:
  "count_event ''ai-speaking-end'' (snd (run_onmessage atob sock s msgs))
     = unmute_transitions (isAIResponding s) (map classify msgs)"
proof (induction msgs arbitrary: s)
  case Nil
  then show ?case by (simp add: count_event_def)
next
  case (Cons m msgs)
  then show ?case
    using onmessage_turn[of atob sock s m]
    by (cases "classify m") (simp_all add: case_prod_beta count_event_append onmessage_unmute_count)
qed

lemma cli_run_mute_count:
  "count_list (snd (cli_run_onmessage s msgs)) MicPause
     = mute_transitions (isAIResponding s) (map classify msgs)"
proof (induction msgs arbitrary: s)
  case Nil
  then show ?case by simp
next
  case (Cons m msgs)
  then show ?case
    using cli_onmessage_turn[of s m]
    by (cases "classify m") (simp_all add: case_prod_beta count_list_append cli_onmessage_mute_count)
qed

lemma cli_run_unmute_count:
  "count_list (snd (cli_run_onmessage s msgs)) MicResume
     = unmute_transitions (isAIResponding s) (map classify msgs)"
proof (induction msgs arbitrary: s)
  case Nil
  then show ?case by simp
next
  case (Cons m msgs)
  then show ?case
    using cli_onmessage_turn[of s m]
    by (cases "classify m") (simp_all add: case_prod_beta count_list_append cli_onmessage_unmute_count)
qed

lemma onmessage_audio_state:
  assumes "classify m = AudioChunk"
  shows "fst (onmessage atob sock s m) = s\<lparr>isAIResponding := True\<rparr>"
    and "fst (cli_onmessage s m) = s\<lparr>isAIResponding := True\<rparr>"
proof -
  from assms obtain ps where ps: "message_parts m = Some ps"
    by (auto simp: classify_def split: if_splits)
  show "fst (onmessage atob sock s m) = s\<lparr>isAIResponding := True\<rparr>"
    using ps by (simp add: onmessage_def case_prod_beta turn_state_True_idem)
  show "fst (cli_onmessage s m) = s\<lparr>isAIResponding := True\<rparr>"
    using ps by (simp add: cli_onmessage_def turn_state_True_idem)
qed

text \<open>
  C4. Over every sequence of messages the mute effect (\<open>ai-speaking-start\<close> on the
  server, \<open>micInstance.pause()\<close> on the command line) is emitted exactly once for
  each transition from idle to responding, and the unmute effect
  (\<open>ai-speaking-end\<close>, \<open>micInstance.resume()\<close>) exactly once for each transition
  from responding to idle. Two consecutive audio chunks emit one mute when the state
  was idle and none when it was responding; two consecutive turn-complete events emit
  one unmute when the state was responding and none when it was idle. An audio chunk
  leaves the state responding. A turn-complete event while idle returns with no
  effect, no change of state and no exception.
\<close>

theorem mute_unmute_once_per_transition:
  "count_event ''ai-speaking-start'' (snd (run_onmessage atob sock s msgs))
     = mute_transitions (isAIResponding s) (map classify msgs)
   \<and> count_event ''ai-speaking-end'' (snd (run_onmessage atob sock s msgs))
     = unmute_transitions (isAIResponding s) (map classify msgs)
   \<and> count_list (snd (cli_run_onmessage s msgs)) MicPause
     = mute_transitions (isAIResponding s) (map classify msgs)
   \<and> count_list (snd (cli_run_onmessage s msgs)) MicResume
     = unmute_transitions (isAIResponding s) (map classify msgs)
   \<and> (classify a = AudioChunk \<and> classify b = AudioChunk \<longrightarrow>
      count_event ''ai-speaking-start'' (snd (run_onmessage atob sock s [a, b]))
        = (if isAIResponding s then 0 else 1)
      \<and> count_list (snd (cli_run_onmessage s [a, b])) MicPause = (if isAIResponding s then 0 else 1)
      \<and> fst (run_onmessage atob sock s [a, b]) = s\<lparr>isAIResponding := True\<rparr>
      \<and> fst (cli_run_onmessage s [a, b]) = s\<lparr>isAIResponding := True\<rparr>)
   \<and> (classify t = TurnComplete \<and> classify u = TurnComplete \<longrightarrow>
      count_event ''ai-speaking-end'' (snd (run_onmessage atob sock s [t, u]))
        = (if isAIResponding s then 1 else 0)
      \<and> count_list (snd (cli_run_onmessage s [t, u])) MicResume = (if isAIResponding s then 1 else 0)
      \<and> fst (run_onmessage atob sock s [t, u]) = s\<lparr>isAIResponding := False\<rparr>
      \<and> fst (cli_run_onmessage s [t, u]) = s\<lparr>isAIResponding := False\<rparr>)
   \<and> (classify m = AudioChunk \<longrightarrow>
      count_event ''ai-speaking-start'' (fst (snd (onmessage atob sock s m)))
        = (if isAIResponding s then 0 else 1)
      \<and> count_list (snd (cli_onmessage s m)) MicPause = (if isAIResponding s then 0 else 1)
      \<and> fst (onmessage atob sock s m) = s\<lparr>isAIResponding := True\<rparr>
      \<and> fst (cli_onmessage s m) = s\<lparr>isAIResponding := True\<rparr>)
   \<and> (classify m = TurnComplete \<longrightarrow>
      onmessage atob sock s m =
        (s\<lparr>isAIResponding := False\<rparr>,
         if isAIResponding s then [Emit sock ''ai-speaking-end'' NoPayload] else [], None)
      \<and> cli_onmessage s m =
        (s\<lparr>isAIResponding := False\<rparr>,
         if isAIResponding s
         then [CliLog ''AI turn complete. Resuming microphone...'', MicResume, CliLog ''Listening...'']
         else []))"
proof (intro conjI impI)
  show "count_event ''ai-speaking-start'' (snd (run_onmessage atob sock s msgs))
     = mute_transitions (isAIResponding s) (map classify msgs)"
    by (rule run_mute_count)
  show "count_event ''ai-speaking-end'' (snd (run_onmessage atob sock s msgs))
     = unmute_transitions (isAIResponding s) (map classify msgs)"
    by (rule run_unmute_count)
  show "count_list (snd (cli_run_onmessage s msgs)) MicPause
     = mute_transitions (isAIResponding s) (map classify msgs)"
    by (rule cli_run_mute_count)
  show "count_list (snd (cli_run_onmessage s msgs)) MicResume
     = unmute_transitions (isAIResponding s) (map classify msgs)"
    by (rule cli_run_unmute_count)
next
  assume ab: "classify a = AudioChunk \<and> classify b = AudioChunk"
  show "count_event ''ai-speaking-start'' (snd (run_onmessage atob sock s [a, b]))
        = (if isAIResponding s then 0 else 1)"
    using ab by (simp only: run_mute_count) simp
  show "count_list (snd (cli_run_onmessage s [a, b])) MicPause = (if isAIResponding s then 0 else 1)"
    using ab by (simp only: cli_run_mute_count) simp
  show "fst (run_onmessage atob sock s [a, b]) = s\<lparr>isAIResponding := True\<rparr>"
    using ab by (simp add: case_prod_beta onmessage_audio_state)
  show "fst (cli_run_onmessage s [a, b]) = s\<lparr>isAIResponding := True\<rparr>"
    using ab by (simp add: case_prod_beta onmessage_audio_state)
next
  assume tu: "classify t = TurnComplete \<and> classify u = TurnComplete"
  then have pt: "message_parts t = None" "message_turnComplete t"
    and pu: "message_parts u = None" "message_turnComplete u"
    by (auto simp: classify_def split: if_splits)
  show "count_event ''ai-speaking-end'' (snd (run_onmessage atob sock s [t, u]))
        = (if isAIResponding s then 1 else 0)"
    using tu by (simp only: run_unmute_count) simp
  show "count_list (snd (cli_run_onmessage s [t, u])) MicResume = (if isAIResponding s then 1 else 0)"
    using tu by (simp only: cli_run_unmute_count) simp
  show "fst (run_onmessage atob sock s [t, u]) = s\<lparr>isAIResponding := False\<rparr>"
    using pt pu by (simp add: onmessage_def)
  show "fst (cli_run_onmessage s [t, u]) = s\<lparr>isAIResponding := False\<rparr>"
    using pt pu by (simp add: cli_onmessage_def)
next
  assume a: "classify m = AudioChunk"
  show "count_event ''ai-speaking-start'' (fst (snd (onmessage atob sock s m)))
        = (if isAIResponding s then 0 else 1)"
    using a by (simp add: onmessage_mute_count)
  show "count_list (snd (cli_onmessage s m)) MicPause = (if isAIResponding s then 0 else 1)"
    using a by (simp add: cli_onmessage_mute_count)
  show "fst (onmessage atob sock s m) = s\<lparr>isAIResponding := True\<rparr>"
    using a by (rule onmessage_audio_state)
  show "fst (cli_onmessage s m) = s\<lparr>isAIResponding := True\<rparr>"
    using a by (rule onmessage_audio_state)
next
  assume t: "classify m = TurnComplete"
  then have p: "message_parts m = None" and c: "message_turnComplete m"
    by (auto simp: classify_def split: if_splits)
  show "onmessage atob sock s m =
        (s\<lparr>isAIResponding := False\<rparr>,
         if isAIResponding s then [Emit sock ''ai-speaking-end'' NoPayload] else [], None)"
    using p c by (simp add: onmessage_def turn_state_False_idem)
  show "cli_onmessage s m =
        (s\<lparr>isAIResponding := False\<rparr>,
         if isAIResponding s
         then [CliLog ''AI turn complete. Resuming microphone...'', MicResume, CliLog ''Listening...'']
         else [])"
    using p c by (simp add: cli_onmessage_def turn_state_False_idem)
qed

theorem mute_unmute_once_per_transition_witness:
  "classify (audio_message ''QUJD'' ''audio/pcm'') = AudioChunk
   \<and> classify (audio_message ''REVG'' ''audio/pcm'') = AudioChunk
   \<and> classify turn_complete_message = TurnComplete
   \<and> count_event ''ai-speaking-start''
        (snd (run_onmessage sample_atob ''socket-1'' listening_state
           [audio_message ''QUJD'' ''audio/pcm'', audio_message ''REVG'' ''audio/pcm''])) = 1
   \<and> count_list (snd (cli_run_onmessage listening_state
           [audio_message ''QUJD'' ''audio/pcm'', audio_message ''REVG'' ''audio/pcm''])) MicPause = 1
   \<and> fst (run_onmessage sample_atob ''socket-1'' listening_state
           [audio_message ''QUJD'' ''audio/pcm'', audio_message ''REVG'' ''audio/pcm'']) = responding_state
   \<and> count_event ''ai-speaking-end''
        (snd (run_onmessage sample_atob ''socket-1'' responding_state
           [turn_complete_message, turn_complete_message])) = 1
   \<and> count_list (snd (cli_run_onmessage responding_state
           [turn_complete_message, turn_complete_message])) MicResume = 1
   \<and> count_event ''ai-speaking-start''
        (fst (snd (onmessage sample_atob ''socket-1'' responding_state (audio_message ''REVG'' ''audio/pcm'')))) = 0
   \<and> count_list (snd (cli_onmessage responding_state (audio_message ''REVG'' ''audio/pcm''))) MicPause = 0
   \<and> onmessage sample_atob ''socket-1'' listening_state turn_complete_message = (listening_state, [], None)
   \<and> cli_onmessage listening_state turn_complete_message = (listening_state, [])"
proof -
  have k: "classify (audio_message ''QUJD'' ''audio/pcm'') = AudioChunk"
    "classify (audio_message ''REVG'' ''audio/pcm'') = AudioChunk"
    "classify turn_complete_message = TurnComplete"
    by (simp_all add: classify_audio_message classify_turn_complete_message)
  have st: "\<not> isAIResponding listening_state" "isAIResponding responding_state"
    "listening_state\<lparr>isAIResponding := True\<rparr> = responding_state"
    "listening_state\<lparr>isAIResponding := False\<rparr> = listening_state"
    by (simp_all add: listening_state_def responding_state_def)
  note idle = mute_unmute_once_per_transition[of sample_atob "''socket-1''" listening_state "[]"
      "audio_message ''QUJD'' ''audio/pcm''" "audio_message ''REVG'' ''audio/pcm''"
      turn_complete_message turn_complete_message turn_complete_message]
  note busy = mute_unmute_once_per_transition[of sample_atob "''socket-1''" responding_state "[]"
      "audio_message ''QUJD'' ''audio/pcm''" "audio_message ''REVG'' ''audio/pcm''"
      turn_complete_message turn_complete_message "audio_message ''REVG'' ''audio/pcm''"]
  show ?thesis
    using k st idle busy by simp
qed

section \<open>Capture frames while the model is responding\<close>

text \<open>
  C2. A capture frame that arrives while the session's state is responding is not
  passed to \<open>sendRealtimeInput\<close>: the server's \<open>audio-data\<close> handler writes two log
  lines and emits nothing to the client, the microphone's \<open>data\<close> handler does
  nothing. Both leave the state as it was, so nothing of the frame is kept for later.
\<close>

theorem capture_dropped_while_responding:
  "(activeVoiceSessions st sock = Some h \<and> voiceSessions st h = Some vs \<and> isAIResponding (turn vs) \<longrightarrow>
      audio_data outcome st sock audioData =
        (st, [ConsoleLog ''Received audio data:'', ConsoleLog ''Voice session not ready:''], None))
   \<and> (isAIResponding s \<longrightarrow> mic_data toBase64 outcome s chunk = (s, [], None))"
  by (simp add: audio_data_def mic_data_def)

theorem capture_dropped_while_responding_witness:
  "activeVoiceSessions (sample_server responding_state) ''socket-1'' = Some 0
   \<and> voiceSessions (sample_server responding_state) 0 = Some \<lparr>socket = ''socket-1'', turn = responding_state\<rparr>
   \<and> isAIResponding (turn \<lparr>socket = ''socket-1'', turn = responding_state\<rparr>)
   \<and> audio_data SendOk (sample_server responding_state) ''socket-1'' (Some ''frame'') =
        (sample_server responding_state,
         [ConsoleLog ''Received audio data:'', ConsoleLog ''Voice session not ready:''], None)
   \<and> mic_data id SendOk responding_state ''frame'' = (responding_state, [], None)"
  using capture_dropped_while_responding[of "sample_server responding_state" "''socket-1''" 0
      "\<lparr>socket = ''socket-1'', turn = responding_state\<rparr>" SendOk "Some ''frame''" responding_state id "''frame''"]
  by (simp add: sample_server_def responding_state_def)

section \<open>Audio for a connection without a session\<close>

text \<open>
  C7. An \<open>audio-data\<close> message on a socket with no entry in the registry of voice
  sessions (never started, or \<open>connect\<close> not yet resolved), or whose session is not
  connected yet, is dropped: two log lines, nothing sent upstream, nothing emitted,
  no exception, and the server's state, with every other client's session, unchanged.
\<close>

theorem audio_without_session_dropped:
  "(activeVoiceSessions st sock = None \<longrightarrow>
      audio_data outcome st sock audioData =
        (st, [ConsoleLog ''Received audio data:'', ConsoleLog ''Voice session not ready:''], None))
   \<and> (activeVoiceSessions st sock = Some h \<and> voiceSessions st h = Some vs \<and> \<not> isConnected (turn vs) \<longrightarrow>
      audio_data outcome st sock audioData =
        (st, [ConsoleLog ''Received audio data:'', ConsoleLog ''Voice session not ready:''], None))"
  by (simp add: audio_data_def)

theorem audio_without_session_dropped_witness:
  "activeVoiceSessions (sample_server listening_state) ''missing-id'' = None
   \<and> audio_data SendOk (sample_server listening_state) ''missing-id'' (Some ''frame'') =
        (sample_server listening_state,
         [ConsoleLog ''Received audio data:'', ConsoleLog ''Voice session not ready:''], None)
   \<and> activeVoiceSessions (sample_server initial_turn_state) ''socket-1'' = Some 0
   \<and> voiceSessions (sample_server initial_turn_state) 0 = Some \<lparr>socket = ''socket-1'', turn = initial_turn_state\<rparr>
   \<and> \<not> isConnected (turn \<lparr>socket = ''socket-1'', turn = initial_turn_state\<rparr>)
   \<and> audio_data SendOk (sample_server initial_turn_state) ''socket-1'' (Some ''frame'') =
        (sample_server initial_turn_state,
         [ConsoleLog ''Received audio data:'', ConsoleLog ''Voice session not ready:''], None)"
  using audio_without_session_dropped[of "sample_server listening_state" "''missing-id''" SendOk "Some ''frame''" 0
      "\<lparr>socket = ''socket-1'', turn = listening_state\<rparr>"]
    audio_without_session_dropped[of "sample_server initial_turn_state" "''socket-1''" SendOk "Some ''frame''" 0
      "\<lparr>socket = ''socket-1'', turn = initial_turn_state\<rparr>"]
  by (simp add: sample_server_def initial_turn_state_def)

section \<open>A send that throws\<close>

text \<open>
  C8. When \<open>sendRealtimeInput\<close> throws, the handler catches the error and reports it
  (the server on the console and with an \<open>error\<close> event to the client, the command
  line on the console), nothing leaves the handler, and the state is unchanged: the
  session stays connected with the same turn state, and the next frame is sent.
\<close>

theorem send_failure_keeps_session:
  "(activeVoiceSessions st sock = Some h \<and> voiceSessions st h = Some vs
      \<and> isConnected (turn vs) \<and> \<not> isAIResponding (turn vs) \<longrightarrow>
      audio_data (SendThrows e) st sock audioData =
        (st, [ConsoleLog ''Received audio data:'', ConsoleLog ''Sending audio to Gemini...'',
              SendRealtimeInput h (Audio audioData mic_mimeType),
              ConsoleError ''Error sending audio:'',
              Emit sock ''error'' (MessagePayload ''Error processing audio'')], None)
      \<and> audio_data SendOk (fst (audio_data (SendThrows e) st sock audioData)) sock audioData' =
        (st, [ConsoleLog ''Received audio data:'', ConsoleLog ''Sending audio to Gemini...'',
              SendRealtimeInput h (Audio audioData' mic_mimeType)], None))
   \<and> (isConnected s \<and> \<not> isAIResponding s \<longrightarrow>
      mic_data toBase64 (SendThrows e) s chunk =
        (s, [CliSendRealtimeInput (Audio (Some (toBase64 chunk)) mic_mimeType),
             CliError ''Error sending audio:''], None)
      \<and> mic_data toBase64 SendOk (fst (mic_data toBase64 (SendThrows e) s chunk)) chunk' =
        (s, [CliSendRealtimeInput (Audio (Some (toBase64 chunk')) mic_mimeType)], None))"
  by (simp add: audio_data_def mic_data_def)

theorem send_failure_keeps_session_witness:
  "activeVoiceSessions (sample_server listening_state) ''socket-1'' = Some 0
   \<and> voiceSessions (sample_server listening_state) 0 = Some \<lparr>socket = ''socket-1'', turn = listening_state\<rparr>
   \<and> isConnected (turn \<lparr>socket = ''socket-1'', turn = listening_state\<rparr>)
   \<and> \<not> isAIResponding (turn \<lparr>socket = ''socket-1'', turn = listening_state\<rparr>)
   \<and> audio_data SendOk (fst (audio_data (SendThrows ''closed'') (sample_server listening_state) ''socket-1'' (Some ''one'')))
        ''socket-1'' (Some ''two'') =
        (sample_server listening_state,
         [ConsoleLog ''Received audio data:'', ConsoleLog ''Sending audio to Gemini...'',
          SendRealtimeInput 0 (Audio (Some ''two'') mic_mimeType)], None)
   \<and> isConnected listening_state \<and> \<not> isAIResponding listening_state
   \<and> mic_data id SendOk (fst (mic_data id (SendThrows ''closed'') listening_state ''one'')) ''two'' =
        (listening_state, [CliSendRealtimeInput (Audio (Some (id ''two'')) mic_mimeType)], None)"
proof -
  have registered:
    "activeVoiceSessions (sample_server listening_state) ''socket-1'' = Some 0
     \<and> voiceSessions (sample_server listening_state) 0 = Some \<lparr>socket = ''socket-1'', turn = listening_state\<rparr>"
    by (simp add: sample_server_def)
  have listening:
    "isConnected (turn \<lparr>socket = ''socket-1'', turn = listening_state\<rparr>)
     \<and> \<not> isAIResponding (turn \<lparr>socket = ''socket-1'', turn = listening_state\<rparr>)
     \<and> isConnected listening_state \<and> \<not> isAIResponding listening_state"
    by (simp add: listening_state_def)
  show ?thesis
    using registered listening
      send_failure_keeps_session[of "sample_server listening_state" "''socket-1''" 0
        "\<lparr>socket = ''socket-1'', turn = listening_state\<rparr>" "''closed''" "Some ''one''" "Some ''two''"
        listening_state id "''one''" "''two''"]
    by blast
qed

section \<open>Order of the audio chunks of one turn\<close>









lemma onmessage_audio_message:
  assumes "d \<noteq> []" "atob d = Some b"
  shows "onmessage atob sock s (audio_message d t) =
     (s\<lparr>isAIResponding := True\<rparr>,
      (if isAIResponding s then [] else [Emit sock ''ai-speaking-start'' NoPayload])
      @ [ConsoleLog ''Audio chunk details'',
         Emit sock ''audio-response'' (AudioResponse d (if t = [] then ''audio/pcm'' else t))],
      None)"
proof -
  have "s\<lparr>isAIResponding := True\<rparr> = s" if "isAIResponding s"
    using that by (cases s) simp
  then show ?thesis
    using assms
    by (simp add: onmessage_def audio_message_def message_parts_def part_data_def part_mimeType_def)
qed

lemma cli_onmessage_audio_message:
  assumes "d \<noteq> []"
  shows "cli_onmessage s (audio_message d t) =
     (s\<lparr>isAIResponding := True\<rparr>,
      (if isAIResponding s then [] else [CliLog ''AI Speaking, microphone paused...'', MicPause])
      @ [SpeakerWrite d])"
proof -
  have "s\<lparr>isAIResponding := True\<rparr> = s" if "isAIResponding s"
    using that by (cases s) simp
  then show ?thesis
    using assms
    by (simp add: cli_onmessage_def audio_message_def message_parts_def part_data_def)
qed

lemma onmessage_turn_complete_message:
  "onmessage atob sock s turn_complete_message =
     (s\<lparr>isAIResponding := False\<rparr>,
      if isAIResponding s then [Emit sock ''ai-speaking-end'' NoPayload] else [], None)"
  by (simp add: onmessage_def turn_complete_message_def message_parts_def message_turnComplete_def
      turn_state_False_idem)

lemma cli_onmessage_turn_complete_message:
  "cli_onmessage s turn_complete_message =
     (s\<lparr>isAIResponding := False\<rparr>,
      if isAIResponding s
      then [CliLog ''AI turn complete. Resuming microphone...'', MicResume, CliLog ''Listening...'']
      else [])"
  by (simp add: cli_onmessage_def turn_complete_message_def message_parts_def message_turnComplete_def
      turn_state_False_idem)










section \<open>Upstream error and close\<close>

text \<open>
  C3, as the specification states it, fails: a session that is responding when the
  upstream reports an error or closes is still responding afterwards, on the server
  and on the command line, and no unmute effect is emitted.
\<close>

theorem error_close_leave_responding:
  "fst (callback sample_atob ''socket-1'' (fst (callback sample_atob ''socket-1'' initial_turn_state Open))
         (Message (audio_message ''QUJD'' ''audio/pcm''))) = responding_state
   \<and> isAIResponding (fst (callback sample_atob ''socket-1'' responding_state (Error ''upstream failure'')))
   \<and> isAIResponding (fst (callback sample_atob ''socket-1'' responding_state (Close None)))
   \<and> count_event ''ai-speaking-end''
        (fst (snd (callback sample_atob ''socket-1'' responding_state (Error ''upstream failure'')))) = 0
   \<and> count_event ''ai-speaking-end''
        (fst (snd (callback sample_atob ''socket-1'' responding_state (Close None)))) = 0
   \<and> fst (cli_onmessage (fst (cli_onopen initial_turn_state)) (audio_message ''QUJD'' ''audio/pcm'')) = responding_state
   \<and> isAIResponding (fst (cli_onerror False True responding_state ''upstream failure''))
   \<and> isAIResponding (fst (cli_onerror False False responding_state ''upstream failure''))
   \<and> isAIResponding (fst (cli_onclose responding_state None))
   \<and> MicResume \<notin> set (fst (snd (cli_onerror False True responding_state ''upstream failure'')))
   \<and> MicResume \<notin> set (fst (snd (cli_onerror False False responding_state ''upstream failure'')))
   \<and> MicResume \<notin> set (snd (cli_onclose responding_state None))"
  by (simp add: callback_def onopen_def onerror_def onclose_def cli_onerror_def cli_onclose_def
      cleanupAndExit_def cli_onopen_def initial_turn_state_def responding_state_def
      onmessage_audio_message[where b="''QUJD''"] cli_onmessage_audio_message
      sample_atob_def base64_alphabet_def count_event_def emits_event_def)

text \<open>
  C3, amended. An upstream error or close leaves the turn state as it was (idle stays
  idle, responding stays responding) and emits no unmute effect. A close, and the
  command line's error handler once \<open>ai.live.connect\<close> has resolved, mark the session
  as not connected, and the microphone's handler forwards no frame of a session that
  is not connected. An error that reaches the command line while \<open>ai.live.connect\<close> is
  pending leaves both variables as they were.
\<close>

theorem error_and_close_keep_turn_state:
  "fst (onerror sock s e) = s
   \<and> fst (onclose sock s r) = s\<lparr>isConnected := False\<rparr>
   \<and> count_event ''ai-speaking-end'' (snd (onerror sock s e)) = 0
   \<and> count_event ''ai-speaking-end'' (snd (onclose sock s r)) = 0
   \<and> fst (cli_onerror destroyed True s e) = s\<lparr>isConnected := False\<rparr>
   \<and> fst (cli_onerror destroyed False s e) = s
   \<and> fst (cli_onclose s r) = s\<lparr>isConnected := False\<rparr>
   \<and> MicResume \<notin> set (fst (snd (cli_onerror destroyed initialised s e)))
   \<and> MicResume \<notin> set (snd (cli_onclose s r))
   \<and> mic_data toBase64 outcome (s\<lparr>isConnected := False\<rparr>) chunk = (s\<lparr>isConnected := False\<rparr>, [], None)"
  by (simp add: onerror_def onclose_def cli_onerror_def cli_onclose_def cleanupAndExit_def
      count_event_def emits_event_def mic_data_def Let_def)

theorem error_and_close_keep_turn_state_witness:
  "isAIResponding (fst (onerror ''socket-1'' responding_state ''upstream failure''))
   \<and> \<not> isAIResponding (fst (onerror ''socket-1'' listening_state ''upstream failure''))
   \<and> isAIResponding (fst (onclose ''socket-1'' responding_state None))
   \<and> \<not> isConnected (fst (onclose ''socket-1'' responding_state None))
   \<and> isAIResponding (fst (cli_onerror False True responding_state ''upstream failure''))
   \<and> \<not> isConnected (fst (cli_onerror False True responding_state ''upstream failure''))
   \<and> isConnected (fst (cli_onerror False False responding_state ''upstream failure''))
   \<and> \<not> isAIResponding (fst (cli_onclose listening_state None))"
  using error_and_close_keep_turn_state[of "''socket-1''" responding_state "''upstream failure''" None False]
    error_and_close_keep_turn_state[of "''socket-1''" listening_state "''upstream failure''" None False]
  by (simp add: responding_state_def listening_state_def)





section \<open>A second start on the same connection\<close>

text \<open>
  C9, as the specification states it, fails: on a socket that has a connected and
  registered session (reached here from an empty server by a start, the open event
  and the resolved connect), a second \<open>start-voice-session\<close> connects a second
  upstream session, emits \<open>voice-session-started\<close> and no error, and replaces the
  registry entry; the first session stays connected in the store.
\<close>

theorem second_start_replaces_silently:
  "fst (connect_resolved
          (fst (upstream sample_atob
             (fst (start_voice_session
                \<lparr>agentSessions = [''agent-1'' \<mapsto> sample_session_data], voiceSessions = Map.empty,
                   activeVoiceSessions = Map.empty, next_handle = 0\<rparr> ''socket-1'' ''agent-1''))
             0 Open)) 0) = sample_server listening_state
   \<and> snd (start_voice_session (sample_server listening_state) ''socket-1'' ''agent-1'') =
       [ConsoleLog ''System Instruction Generated:'',
        LiveConnect 1 (generateSystemInstruction sample_session_data)]
   \<and> snd (connect_resolved (fst (start_voice_session (sample_server listening_state) ''socket-1'' ''agent-1'')) 1) =
       [Emit ''socket-1'' ''voice-session-started'' NoPayload]
   \<and> activeVoiceSessions
       (fst (connect_resolved (fst (start_voice_session (sample_server listening_state) ''socket-1'' ''agent-1'')) 1))
       ''socket-1'' = Some 1
   \<and> voiceSessions
       (fst (connect_resolved (fst (start_voice_session (sample_server listening_state) ''socket-1'' ''agent-1'')) 1))
       0 = Some \<lparr>socket = ''socket-1'', turn = listening_state\<rparr>"
  by (simp add: start_voice_session_def createVoiceSession_def connect_resolved_def upstream_def
      callback_def onopen_def sample_server_def listening_state_def initial_turn_state_def Let_def)

text \<open>
  C9, amended. A \<open>start-voice-session\<close> on a socket that already has a registered
  voice session is handled as a first one is, and is never reported as a second
  connect. When its \<open>sessionId\<close> names a stored agent session, the handler creates a
  further voice session and calls \<open>ai.live.connect\<close> for it; when that resolves it
  emits \<open>voice-session-started\<close> and the registry entry of the socket becomes the new
  session, with no error reported; when that rejects it logs and emits the error of
  the connect and the registry keeps the earlier session. When its \<open>sessionId\<close> names
  no stored agent session, the handler emits the error \<open>Session not found\<close> and
  changes nothing. In every case the earlier session stays in the store as it was and
  nothing is closed. The earlier session was created before the request, so its
  handle is below the counter that names the next session.
\<close>

theorem second_start_opens_and_registers_new_session:
  assumes "activeVoiceSessions st sock = Some h0" and "voiceSessions st h0 = Some vs0"
    and "h0 < next_handle st"
  shows "(agentSessions st sessionId = Some sd \<longrightarrow>
      start_voice_session st sock sessionId =
        (st\<lparr>voiceSessions := (voiceSessions st)(next_handle st \<mapsto> \<lparr>socket = sock, turn = initial_turn_state\<rparr>),
            next_handle := Suc (next_handle st)\<rparr>,
         [ConsoleLog ''System Instruction Generated:'',
          LiveConnect (next_handle st) (generateSystemInstruction sd)])
      \<and> snd (connect_resolved (fst (start_voice_session st sock sessionId)) (next_handle st)) =
          [Emit sock ''voice-session-started'' NoPayload]
      \<and> activeVoiceSessions
          (fst (connect_resolved (fst (start_voice_session st sock sessionId)) (next_handle st))) sock
          = Some (next_handle st)
      \<and> next_handle st \<noteq> h0
      \<and> voiceSessions
          (fst (connect_resolved (fst (start_voice_session st sock sessionId)) (next_handle st))) h0
          = Some vs0
      \<and> connect_rejected (fst (start_voice_session st sock sessionId)) (next_handle st) err =
          (fst (start_voice_session st sock sessionId),
           [ConsoleError ''Error starting voice session:'', Emit sock ''error'' (MessagePayload err)])
      \<and> activeVoiceSessions (fst (start_voice_session st sock sessionId)) sock = Some h0
      \<and> voiceSessions (fst (start_voice_session st sock sessionId)) h0 = Some vs0)
   \<and> (agentSessions st sessionId = None \<longrightarrow>
      start_voice_session st sock sessionId =
        (st, [Emit sock ''error'' (MessagePayload ''Session not found'')]))"
  using assms
  by (simp add: start_voice_session_def createVoiceSession_def connect_resolved_def
      connect_rejected_def Let_def)

theorem second_start_opens_and_registers_new_session_witness:
  "activeVoiceSessions (sample_server listening_state) ''socket-1'' = Some 0
   \<and> voiceSessions (sample_server listening_state) 0 = Some \<lparr>socket = ''socket-1'', turn = listening_state\<rparr>
   \<and> 0 < next_handle (sample_server listening_state)
   \<and> agentSessions (sample_server listening_state) ''agent-1'' = Some sample_session_data
   \<and> agentSessions (sample_server listening_state) ''agent-2'' = None
   \<and> snd (connect_resolved (fst (start_voice_session (sample_server listening_state) ''socket-1'' ''agent-1''))
        (next_handle (sample_server listening_state))) =
       [Emit ''socket-1'' ''voice-session-started'' NoPayload]
   \<and> activeVoiceSessions
        (fst (connect_resolved (fst (start_voice_session (sample_server listening_state) ''socket-1'' ''agent-1''))
           (next_handle (sample_server listening_state)))) ''socket-1''
       = Some (next_handle (sample_server listening_state))
   \<and> voiceSessions
        (fst (connect_resolved (fst (start_voice_session (sample_server listening_state) ''socket-1'' ''agent-1''))
           (next_handle (sample_server listening_state)))) 0
       = Some \<lparr>socket = ''socket-1'', turn = listening_state\<rparr>
   \<and> start_voice_session (sample_server listening_state) ''socket-1'' ''agent-2'' =
       (sample_server listening_state, [Emit ''socket-1'' ''error'' (MessagePayload ''Session not found'')])"
proof -
  have r: "activeVoiceSessions (sample_server listening_state) ''socket-1'' = Some 0"
    and v: "voiceSessions (sample_server listening_state) 0 = Some \<lparr>socket = ''socket-1'', turn = listening_state\<rparr>"
    and n: "0 < next_handle (sample_server listening_state)"
    and a: "agentSessions (sample_server listening_state) ''agent-1'' = Some sample_session_data"
    and u: "agentSessions (sample_server listening_state) ''agent-2'' = None"
    by (simp_all add: sample_server_def)
  show ?thesis
    using r v n a u
      second_start_opens_and_registers_new_session[OF r v n, of "''agent-1''" sample_session_data "''refused''"]
      second_start_opens_and_registers_new_session[OF r v n, of "''agent-2''" sample_session_data "''refused''"]
    by blast
qed

section \<open>Documents in the system instruction\<close>

lemma join_Cons: "join sep (x # xs) = x @ (if xs = [] then [] else sep @ join sep xs)"
  by (cases xs) simp_all

lemma sublist_in_context: "sublist x y \<Longrightarrow> sublist x (a @ y @ b)"
proof -
  assume "sublist x y"
  then obtain p s where "y = p @ x @ s" by (auto simp: sublist_def)
  then have "a @ y @ b = (a @ p) @ x @ (s @ b)" by simp
  then show ?thesis unfolding sublist_def by blast
qed

lemma sublist_join_map: "d \<in> set ds \<Longrightarrow> sublist (f d) (join sep (map f ds))"
proof (induction ds)
  case Nil
  then show ?case by simp
next
  case (Cons a ds)
  show ?case
  proof (cases "d = a")
    case True
    then show ?thesis by (simp add: join_Cons)
  next
    case False
    with Cons have d: "d \<in> set ds" and s: "sublist (f d) (join sep (map f ds))" by auto
    from d have "ds \<noteq> []" by auto
    then show ?thesis
      using sublist_in_context[OF s, of "f a @ sep" "[]"] by (simp add: join_Cons)
  qed
qed

lemma first_occurrence_before:
  assumes eq: "xs @ p @ r = ys @ p @ r'" and len: "length xs < length ys"
  shows "sublist p (ys @ butlast p)"
proof (cases "p = []")
  case True
  then show ?thesis by simp
next
  case False
  from eq len obtain us where ys: "ys = xs @ us" and rest: "p @ r = us @ p @ r'"
    by (auto simp: append_eq_append_conv2)
  from ys len have us: "us \<noteq> []" by auto
  have "prefix p (us @ p @ r')"
    using rest by (metis prefixI)
  moreover have "prefix (us @ butlast p) (us @ p @ r')"
    by (metis append_butlast_last_id False append.assoc prefixI)
  moreover have "length p \<le> length (us @ butlast p)"
    using us False by (cases us) simp_all
  ultimately have "prefix p (us @ butlast p)"
    by (rule prefix_length_prefix)
  then have "sublist p (us @ butlast p)" by (rule prefix_imp_sublist)
  then show ?thesis
    using sublist_in_context[of p "us @ butlast p" xs "[]"] by (simp add: ys)
qed

lemma first_occurrence_unique:
  assumes eq: "xs @ p @ r = ys @ p @ r'"
    and nx: "\<not> sublist p (xs @ butlast p)" and ny: "\<not> sublist p (ys @ butlast p)"
  shows "xs = ys \<and> r = r'"
proof -
  have "\<not> length xs < length ys"
    using first_occurrence_before[OF eq] ny by blast
  moreover have "\<not> length ys < length xs"
    using first_occurrence_before[OF eq[symmetric]] nx by blast
  ultimately have "length xs = length ys" by simp
  then show ?thesis using eq by simp
qed

lemma split_at_first:
  assumes "a \<notin> set xs" and "a \<notin> set ys" and "xs @ a # r = ys @ a # r'"
  shows "xs = ys \<and> r = r'"
  using assms
proof (induction xs arbitrary: ys)
  case Nil
  then show ?case by (cases ys) auto
next
  case (Cons x xs)
  then show ?case by (cases ys) auto
qed

lemma document_block_not_Nil: "document_block d \<noteq> []"
  by (simp add: document_block_def document_header_def)

lemma join_blocks_eq_Nil:
  assumes "\<And>d. f d \<noteq> []" and "join sep (map f ds) = []"
  shows "ds = []"
  using assms by (cases ds) (simp_all add: join_Cons)

text \<open>
  A pattern whose last element occurs nowhere else in it cannot begin inside a list
  and end in the pattern's own beginning.
\<close>

lemma no_border_snoc:
  assumes l: "last p \<notin> set (butlast p)" and p: "p \<noteq> []" and n: "\<not> sublist p xs"
  shows "\<not> sublist p (xs @ butlast p)"
proof
  assume "sublist p (xs @ butlast p)"
  then obtain u v where "xs @ butlast p = u @ p @ v"
    by (auto simp: sublist_def)
  with p have "xs @ butlast p = (u @ butlast p) @ last p # v"
    by (metis append.assoc append_Cons append_Nil append_butlast_last_id)
  then obtain t where
    "(xs = (u @ butlast p) @ t \<and> t @ butlast p = last p # v)
     \<or> (xs @ t = u @ butlast p \<and> butlast p = t @ last p # v)"
    by (auto simp: append_eq_append_conv2)
  then show False
  proof (elim disjE conjE)
    assume x: "xs = (u @ butlast p) @ t" and t: "t @ butlast p = last p # v"
    show False
    proof (cases t)
      case Nil
      with t l show False by auto
    next
      case (Cons c t')
      with t have "c = last p" by simp
      with x Cons p have "xs = u @ p @ t'"
        by (metis append.assoc append_Cons append_Nil append_butlast_last_id)
      with n show False by (auto simp: sublist_def)
    qed
  next
    assume "butlast p = t @ last p # v"
    with l show False by auto
  qed
qed

text \<open>
  A delimiter \<open>a # E @ [a]\<close> whose inside \<open>E\<close> is free of \<open>a\<close>: when neither text
  holds the delimiter and what follows does not begin with \<open>E\<close>, the text before the
  delimiter is determined.
\<close>

lemma framed_before:
  assumes eq: "xs @ (a # E @ [a]) @ r = ys @ (a # E @ [a]) @ r'"
    and len: "length xs < length ys"
    and a: "a \<notin> set E"
    and ny: "\<not> sublist (a # E @ [a]) ys"
    and nr: "\<not> prefix E r"
  shows False
proof -
  from eq len obtain us where ys: "ys = xs @ us" and rest: "(a # E @ [a]) @ r = us @ (a # E @ [a]) @ r'"
    by (auto simp: append_eq_append_conv2)
  from ys len have "us \<noteq> []" by auto
  with rest obtain us' where us: "us = a # us'"
    by (cases us) auto
  with rest have e: "E @ a # r = us' @ a # (E @ a # r')" by simp
  show False
  proof (cases "a \<in> set us'")
    case False
    from split_at_first[OF a False e] have "r = E @ a # r'" by simp
    then have "prefix E r" by simp
    with nr show False by simp
  next
    case True
    then obtain u1 u2 where u: "us' = u1 @ a # u2" and u1: "a \<notin> set u1"
      by (auto dest: split_list_first)
    with e have "E @ a # r = u1 @ a # (u2 @ a # E @ a # r')" by simp
    from split_at_first[OF a u1 this] have "E = u1" by simp
    with u us ys have "ys = xs @ (a # E @ [a]) @ u2" by simp
    with ny show False by (auto simp: sublist_def)
  qed
qed

lemma framed_split:
  assumes eq: "xs @ (a # E @ [a]) @ r = ys @ (a # E @ [a]) @ r'"
    and a: "a \<notin> set E"
    and nx: "\<not> sublist (a # E @ [a]) xs" and ny: "\<not> sublist (a # E @ [a]) ys"
    and nr: "\<not> prefix E r" and nr': "\<not> prefix E r'"
  shows "xs = ys \<and> r = r'"
proof -
  have "\<not> length xs < length ys"
    using framed_before[OF eq _ a ny nr] by blast
  moreover have "\<not> length ys < length xs"
    using framed_before[OF eq[symmetric] _ a nx nr'] by blast
  ultimately have "length xs = length ys" by simp
  then show ?thesis using eq by simp
qed

text \<open>
  One block of the document library, followed by anything that does not begin with
  the rule of the footer, determines its document.
\<close>

lemma document_block_split:
  assumes d: "library_safe d" and e: "library_safe e"
    and eq: "document_block d @ r = document_block e @ r'"
    and nr: "\<not> prefix ''============================'' r"
    and nr': "\<not> prefix ''============================'' r'"
  shows "d = e \<and> r = r'"
proof -
  let ?nl = "CHR ''\<newline>''"
  let ?P = "'' ===\<newline>''"
  let ?E = "''============================''"
  have e1: "name d @ ?P @ (content d @ document_footer @ r)
          = name e @ ?P @ (content e @ document_footer @ r')"
    using eq by (simp add: document_block_def document_header_def)
  have border: "last ?P \<notin> set (butlast ?P)" and P: "?P \<noteq> []" by simp_all
  have "\<not> sublist ?P (name d @ butlast ?P)" and "\<not> sublist ?P (name e @ butlast ?P)"
    using no_border_snoc[OF border P] d e unfolding library_safe_def by blast+
  from first_occurrence_unique[OF e1 this]
  have names: "name d = name e"
    and e2: "content d @ document_footer @ r = content e @ document_footer @ r'"
    by simp_all
  have f: "document_footer = ?nl # ?E @ [?nl]"
    by (simp add: document_footer_def)
  have e3: "content d @ (?nl # ?E @ [?nl]) @ r = content e @ (?nl # ?E @ [?nl]) @ r'"
    using e2 by (simp only: f)
  have a: "?nl \<notin> set ?E" by simp
  have "\<not> sublist (?nl # ?E @ [?nl]) (content d)" and "\<not> sublist (?nl # ?E @ [?nl]) (content e)"
    using d e unfolding library_safe_def f by blast+
  from framed_split[OF e3 a this nr nr']
  have "content d = content e" and "r = r'" by simp_all
  with names show ?thesis by simp
qed

lemma documentContent_inj:
  assumes "list_all library_safe ds" and "list_all library_safe es"
    and "join ''\<newline>'' (map document_block ds) = join ''\<newline>'' (map document_block es)"
  shows "ds = es"
  using assms
proof (induction ds arbitrary: es)
  case Nil
  then show ?case
    using join_blocks_eq_Nil[of document_block "''\<newline>''" es] document_block_not_Nil by simp
next
  case (Cons d ds)
  show ?case
  proof (cases es)
    case Nil
    with Cons.prems(3) show ?thesis
      using join_blocks_eq_Nil[of document_block "''\<newline>''" "d # ds"] document_block_not_Nil by simp
  next
    case (Cons e es')
    let ?J = "\<lambda>xs. if xs = [] then [] else ''\<newline>'' @ join ''\<newline>'' (map document_block xs)"
    have eq: "document_block d @ ?J ds = document_block e @ ?J es'"
      using Cons.prems(3) Cons by (simp add: join_Cons)
    have safe: "library_safe d" "library_safe e"
      using Cons.prems(1,2) Cons by simp_all
    have "\<not> prefix ''============================'' (?J ds)"
      and "\<not> prefix ''============================'' (?J es')"
      by simp_all
    from document_block_split[OF safe eq this] have de: "d = e" and tl: "?J ds = ?J es'" by simp_all
    have "ds = es'"
    proof (cases "ds = []")
      case True
      with tl show ?thesis by (cases "es' = []") simp_all
    next
      case False
      with tl have "es' \<noteq> []" by (cases "es' = []") simp_all
      with False tl have "join ''\<newline>'' (map document_block ds) = join ''\<newline>'' (map document_block es')"
        by simp
      moreover have "list_all library_safe ds" "list_all library_safe es'"
        using Cons.prems(1,2) Cons by simp_all
      ultimately show ?thesis using Cons.IH by blast
    qed
    with de Cons show ?thesis by simp
  qed
qed

lemma context_block_not_Nil: "context_block d \<noteq> []"
  by (simp add: context_block_def)

lemma join_context_starts:
  "ds \<noteq> [] \<Longrightarrow> \<exists>x. join ''\<newline>'' (map context_block ds) = CHR ''\<newline>'' # x"
  by (cases ds) (simp_all add: join_Cons context_block_def)

lemma context_documents_inj:
  assumes "list_all context_safe ds" and "list_all context_safe es"
    and "join ''\<newline>'' (map context_block ds) = join ''\<newline>'' (map context_block es)"
  shows "ds = es"
  using assms
proof (induction ds arbitrary: es)
  case Nil
  then show ?case
    using join_blocks_eq_Nil[of context_block "''\<newline>''" es] context_block_not_Nil by simp
next
  case (Cons d ds)
  show ?case
  proof (cases es)
    case Nil
    with Cons.prems(3) show ?thesis
      using join_blocks_eq_Nil[of context_block "''\<newline>''" "d # ds"] context_block_not_Nil by simp
  next
    case (Cons e es')
    let ?nl = "CHR ''\<newline>''"
    let ?J = "\<lambda>xs. join ''\<newline>'' (map context_block xs)"
    let ?T = "\<lambda>xs. if xs = [] then [] else ''\<newline>'' @ ?J xs"
    have sd: "context_safe d" and se: "context_safe e"
      and sds: "list_all context_safe ds" and ses: "list_all context_safe es'"
      using Cons.prems(1,2) Cons by simp_all
    have eq: "context_block d @ ?T ds = context_block e @ ?T es'"
      using Cons.prems(3) Cons by (simp add: join_Cons)
    then have e1: "(name d @ '':'') @ ?nl # (content d @ ''\<newline>'' @ ?T ds)
                 = (name e @ '':'') @ ?nl # (content e @ ''\<newline>'' @ ?T es')"
      by (simp add: context_block_def)
    have "?nl \<notin> set (name d @ '':'')" and "?nl \<notin> set (name e @ '':'')"
      using sd se by (simp_all add: context_safe_def)
    from split_at_first[OF this e1]
    have n: "name d @ '':'' = name e @ '':''"
      and e2: "content d @ ''\<newline>'' @ ?T ds = content e @ ''\<newline>'' @ ?T es'"
      by blast+
    from n have names: "name d = name e" by simp
    have nd: "\<not> sublist ''\<newline>\<newline>'' (content d @ ''\<newline>'')"
      and ne: "\<not> sublist ''\<newline>\<newline>'' (content e @ ''\<newline>'')"
      using sd se by (simp_all add: context_safe_def)
    have "content d = content e \<and> ds = es'"
    proof (cases "ds = []")
      case True
      note dsNil = True
      show ?thesis
      proof (cases "es' = []")
        case True
        with dsNil e2 show ?thesis by simp
      next
        case False
        then obtain x where "?J es' = ?nl # x"
          using join_context_starts by blast
        with False dsNil e2
        have "content d @ ''\<newline>'' = content e @ ''\<newline>\<newline>'' @ (?nl # x)"
          by simp
        then have "sublist ''\<newline>\<newline>'' (content d @ ''\<newline>'')"
          by (metis sublist_appendI)
        with nd show ?thesis by simp
      qed
    next
      case False
      note dsCons = False
      then obtain x where x: "?J ds = ?nl # x"
        using join_context_starts by blast
      show ?thesis
      proof (cases "es' = []")
        case True
        with dsCons x e2
        have "content e @ ''\<newline>'' = content d @ ''\<newline>\<newline>'' @ (?nl # x)"
          by simp
        then have "sublist ''\<newline>\<newline>'' (content e @ ''\<newline>'')"
          by (metis sublist_appendI)
        with ne show ?thesis by simp
      next
        case False
        with dsCons e2
        have e3: "content d @ ''\<newline>\<newline>'' @ ?J ds = content e @ ''\<newline>\<newline>'' @ ?J es'"
          by simp
        have bd: "\<not> sublist ''\<newline>\<newline>'' (content d @ butlast ''\<newline>\<newline>'')"
          and be: "\<not> sublist ''\<newline>\<newline>'' (content e @ butlast ''\<newline>\<newline>'')"
          using nd ne by simp_all
        from first_occurrence_unique[OF e3 bd be]
        have c: "content d = content e" and j: "?J ds = ?J es'" by simp_all
        from Cons.IH[OF sds ses j] c show ?thesis by simp
      qed
    qed
    with names Cons show ?thesis by simp
  qed
qed

lemma digit_char_digit: "d < 10 \<Longrightarrow> digit_char d \<in> set ''0123456789''"
proof -
  assume "d < 10"
  then have "d < length ''0123456789''" by simp
  then have "''0123456789'' ! d \<in> set ''0123456789''" by (rule nth_mem)
  then show ?thesis by (simp only: digit_char_def)
qed

lemma show_nat_digits: "set (show_nat n) \<subseteq> set ''0123456789''"
proof (induction n rule: show_nat.induct)
  case (1 n)
  show ?case
  proof (cases "n < 10")
    case True
    then show ?thesis
      using digit_char_digit[of n] by (subst show_nat.simps) simp
  next
    case False
    have "n mod 10 < 10" by simp
    then have "digit_char (n mod 10) \<in> set ''0123456789''" by (rule digit_char_digit)
    moreover have "set (show_nat (n div 10)) \<subseteq> set ''0123456789''"
      using 1 False by simp
    ultimately show ?thesis
      using False by (subst show_nat.simps) simp
  qed
qed

lemma show_nat_no_space: "CHR '' '' \<notin> set (show_nat n)"
  using show_nat_digits[of n] by auto

lemma generateSystemInstruction_inj:
  assumes "list_all library_safe (documents sd)" and "list_all library_safe (documents sd')"
    and "agentType sd = agentType sd'"
    and "generateSystemInstruction sd = generateSystemInstruction sd'"
  shows "documents sd = documents sd'"
proof -
  obtain l where l: "instruction_library = CHR '' '' # l"
    by (simp add: instruction_library_def)
  have "show_nat (length (documents sd)) @ CHR '' '' # (l @ documentContent sd @ instruction_guidelines)
      = show_nat (length (documents sd')) @ CHR '' '' # (l @ documentContent sd' @ instruction_guidelines)"
    using assms(3,4) by (simp add: generateSystemInstruction_def l)
  from split_at_first[OF show_nat_no_space show_nat_no_space this]
  have "documentContent sd = documentContent sd'" by simp
  then show ?thesis
    using documentContent_inj[OF assms(1,2)] by (simp add: documentContent_def)
qed

lemma readline_document_context_safe: "readline_document doc \<Longrightarrow> context_safe doc"
proof -
  assume r: "readline_document doc"
  have "\<not> sublist ''\<newline>\<newline>'' (content doc @ ''\<newline>'')"
  proof
    assume "sublist ''\<newline>\<newline>'' (content doc @ ''\<newline>'')"
    then obtain u v where uv: "content doc @ ''\<newline>'' = u @ ''\<newline>\<newline>'' @ v"
      by (auto simp: sublist_def)
    show False
    proof (cases v rule: rev_cases)
      case Nil
      with uv have "content doc @ [CHR ''\<newline>''] = (u @ [CHR ''\<newline>'']) @ [CHR ''\<newline>'']" by simp
      then have "content doc = u @ [CHR ''\<newline>'']" by (simp only: append1_eq_conv)
      with r show False by (simp add: readline_document_def single_line_def)
    next
      case (snoc v' x)
      with uv have "content doc @ [CHR ''\<newline>''] = (u @ ''\<newline>\<newline>'' @ v') @ [x]" by simp
      then have "content doc = u @ ''\<newline>\<newline>'' @ v'" by (simp only: append1_eq_conv)
      with r show False by (simp add: readline_document_def single_line_def)
    qed
  qed
  with r show ?thesis by (simp add: context_safe_def readline_document_def single_line_def)
qed

lemma systemInstruction_inj:
  assumes "list_all context_safe (documents sd)" and "list_all context_safe (documents sd')"
    and "agentType sd = agentType sd'"
    and "systemInstruction sd = systemInstruction sd'"
  shows "documents sd = documents sd'"
proof -
  have "context_documents sd = context_documents sd'"
    using assms(3,4) by (simp add: systemInstruction_def)
  then show ?thesis
    using context_documents_inj[OF assms(1,2)] by (simp add: context_documents_def)
qed

lemma block_in_generateSystemInstruction:
  assumes "doc \<in> set (documents sd)"
  shows "sublist (document_block doc) (generateSystemInstruction sd)"
proof -
  have "sublist (document_block doc) (documentContent sd)"
    unfolding documentContent_def using assms by (rule sublist_join_map)
  from sublist_in_context[OF this,
      of "instruction_title @ agentType sd @ instruction_role
          @ show_nat (length (documents sd)) @ instruction_library" instruction_guidelines]
  show ?thesis by (simp add: generateSystemInstruction_def)
qed

lemma block_in_systemInstruction:
  assumes "doc \<in> set (documents sd)"
  shows "sublist (context_block doc) (systemInstruction sd)"
proof -
  have s: "sublist (context_block doc) (context_documents sd)"
    unfolding context_documents_def using assms by (rule sublist_join_map)
  have "\<exists>a b. systemInstruction sd = a @ context_documents sd @ b"
    unfolding systemInstruction_def by (metis append.assoc)
  then show ?thesis
    using sublist_in_context[OF s] by metis
qed

lemma name_content_in_document_block:
  "sublist (name doc) (document_block doc)" "sublist (content doc) (document_block doc)"
proof -
  have "document_block doc = ''\<newline>=== DOCUMENT: '' @ name doc @ ('' ===\<newline>'' @ content doc @ document_footer)"
    by (simp add: document_block_def document_header_def)
  then show "sublist (name doc) (document_block doc)" by (metis sublist_appendI)
  have "document_block doc = document_header (name doc) @ content doc @ document_footer"
    by (simp add: document_block_def)
  then show "sublist (content doc) (document_block doc)" by (metis sublist_appendI)
qed

lemma name_content_in_context_block:
  "sublist (name doc) (context_block doc)" "sublist (content doc) (context_block doc)"
proof -
  have "context_block doc = ''\<newline>'' @ name doc @ ('':\<newline>'' @ content doc @ ''\<newline>'')"
    by (simp add: context_block_def)
  then show "sublist (name doc) (context_block doc)" by (metis sublist_appendI)
  have "context_block doc = (''\<newline>'' @ name doc @ '':\<newline>'') @ content doc @ ''\<newline>''"
    by (simp add: context_block_def)
  then show "sublist (content doc) (context_block doc)" by (metis sublist_appendI)
qed

text \<open>
  C10, as the specification states it, fails in its second half for server.js, whose
  documents come from a request body and can hold any text. Two contexts with the
  same agent type and the same document names, whose documents differ in content,
  build the same system instruction: the text of the first document cannot be told
  from the text of the second in the built string. And two contexts with one document
  each build the same system instruction though the name and the content differ.
\<close>

theorem documents_not_distinguishable:
  "generateSystemInstruction library_a = generateSystemInstruction library_b
   \<and> agentType library_a = agentType library_b
   \<and> map name (documents library_a) = map name (documents library_b)
   \<and> map content (documents library_a) \<noteq> map content (documents library_b)
   \<and> generateSystemInstruction heading_a = generateSystemInstruction heading_b
   \<and> agentType heading_a = agentType heading_b
   \<and> map content (documents heading_a) \<noteq> map content (documents heading_b)"
  by (simp add: generateSystemInstruction_def documentContent_def document_block_def
      document_header_def document_footer_def library_a_def library_b_def
      heading_a_def heading_b_def)

text \<open>
  C10, amended. For every session context the system instruction contains the name
  and the full content of each document verbatim, inside the block of that document
  (the header with its name, the content and the footer in server.js; the name line
  and the content in final.js). In final.js, whose documents are single lines read by
  \<open>rl.question\<close>, the built string determines the list of documents for a given
  agent type, so every content is told apart from the others. In server.js it does so
  when no name holds the end of the header line and no content holds the footer.
\<close>

theorem documents_verbatim_and_separable:
  "(\<forall>doc \<in> set (documents sd).
      sublist (name doc) (generateSystemInstruction sd)
      \<and> sublist (content doc) (generateSystemInstruction sd)
      \<and> sublist (document_block doc) (generateSystemInstruction sd)
      \<and> sublist (name doc) (systemInstruction sd)
      \<and> sublist (content doc) (systemInstruction sd)
      \<and> sublist (context_block doc) (systemInstruction sd))
   \<and> (list_all library_safe (documents sd) \<and> list_all library_safe (documents sd')
        \<and> agentType sd = agentType sd'
        \<and> generateSystemInstruction sd = generateSystemInstruction sd'
      \<longrightarrow> documents sd = documents sd')
   \<and> (list_all readline_document (documents sd) \<and> list_all readline_document (documents sd')
        \<and> agentType sd = agentType sd'
        \<and> systemInstruction sd = systemInstruction sd'
      \<longrightarrow> documents sd = documents sd')"
proof (intro conjI ballI impI)
  fix doc assume d: "doc \<in> set (documents sd)"
  note b = block_in_generateSystemInstruction[OF d]
  note c = block_in_systemInstruction[OF d]
  show "sublist (document_block doc) (generateSystemInstruction sd)" by (rule b)
  show "sublist (context_block doc) (systemInstruction sd)" by (rule c)
  show "sublist (name doc) (generateSystemInstruction sd)"
    using name_content_in_document_block(1) b by (rule sublist_order.order_trans)
  show "sublist (content doc) (generateSystemInstruction sd)"
    using name_content_in_document_block(2) b by (rule sublist_order.order_trans)
  show "sublist (name doc) (systemInstruction sd)"
    using name_content_in_context_block(1) c by (rule sublist_order.order_trans)
  show "sublist (content doc) (systemInstruction sd)"
    using name_content_in_context_block(2) c by (rule sublist_order.order_trans)
next
  assume "list_all library_safe (documents sd) \<and> list_all library_safe (documents sd')
        \<and> agentType sd = agentType sd'
        \<and> generateSystemInstruction sd = generateSystemInstruction sd'"
  then show "documents sd = documents sd'"
    using generateSystemInstruction_inj by blast
next
  assume h: "list_all readline_document (documents sd) \<and> list_all readline_document (documents sd')
        \<and> agentType sd = agentType sd'
        \<and> systemInstruction sd = systemInstruction sd'"
  then have "list_all context_safe (documents sd)" and "list_all context_safe (documents sd')"
    using readline_document_context_safe by (auto simp: list_all_iff)
  with h show "documents sd = documents sd'"
    using systemInstruction_inj by blast
qed

lemma sample_documents_safe:
  "list_all library_safe (documents sample_session_data)"
  "list_all library_safe (documents swapped_session_data)"
  "list_all readline_document (documents sample_session_data)"
  "list_all readline_document (documents swapped_session_data)"
  by (simp_all add: sample_session_data_def swapped_session_data_def library_safe_def
      readline_document_def single_line_def document_footer_def sublist_Cons_right)

theorem documents_verbatim_and_separable_witness:
  "\<lparr>name = ''Prices'', content = ''Visit: 40''\<rparr> \<in> set (documents sample_session_data)
   \<and> sublist ''Prices'' (generateSystemInstruction sample_session_data)
   \<and> sublist ''Visit: 40'' (generateSystemInstruction sample_session_data)
   \<and> sublist ''Visit: 40'' (systemInstruction sample_session_data)
   \<and> list_all library_safe (documents sample_session_data)
   \<and> list_all library_safe (documents swapped_session_data)
   \<and> list_all readline_document (documents sample_session_data)
   \<and> list_all readline_document (documents swapped_session_data)
   \<and> agentType sample_session_data = agentType swapped_session_data
   \<and> generateSystemInstruction sample_session_data \<noteq> generateSystemInstruction swapped_session_data
   \<and> systemInstruction sample_session_data \<noteq> systemInstruction swapped_session_data"
proof -
  have m: "\<lparr>name = ''Prices'', content = ''Visit: 40''\<rparr> \<in> set (documents sample_session_data)"
    by (simp add: sample_session_data_def)
  have a: "agentType sample_session_data = agentType swapped_session_data"
    by (simp add: sample_session_data_def swapped_session_data_def)
  have n: "documents sample_session_data \<noteq> documents swapped_session_data"
    by (simp add: sample_session_data_def swapped_session_data_def)
  note t = documents_verbatim_and_separable[of sample_session_data swapped_session_data]
  from t m have
    "sublist (name \<lparr>name = ''Prices'', content = ''Visit: 40''\<rparr>) (generateSystemInstruction sample_session_data)
     \<and> sublist (content \<lparr>name = ''Prices'', content = ''Visit: 40''\<rparr>) (generateSystemInstruction sample_session_data)
     \<and> sublist (content \<lparr>name = ''Prices'', content = ''Visit: 40''\<rparr>) (systemInstruction sample_session_data)"
    by blast
  then have v: "sublist ''Prices'' (generateSystemInstruction sample_session_data)
     \<and> sublist ''Visit: 40'' (generateSystemInstruction sample_session_data)
     \<and> sublist ''Visit: 40'' (systemInstruction sample_session_data)"
    by simp
  show ?thesis
    using m a n v t sample_documents_safe by blast
qed

end
